theory Spec2Isabelle
  imports Main "HOL-Library.AList" "HOL-Library.Log_Nat" "HOL-Library.Char_ord"
    "HOL-Library.List_Lexorder"
begin

section \<open>Strings and the regular expressions of \<^verbatim>\<open>src/index.ts\<close>\<close>

text \<open>
  A JavaScript string is modelled as a \<^typ>\<open>string\<close>: one \<^typ>\<open>char\<close> per code unit, so
  the model covers the strings whose code units are below 256. \<open>toLowerCase\<close> changes, among
  these code units, the letters \<open>A-Z\<close> and the capital letters \<open>U+00C0\<close> to \<open>U+00DE\<close>
  (the multiplication sign \<open>U+00D7\<close> is not a letter), each to the code unit 32 above it;
  its result has code units below 256 again. \<open>toUpperCase\<close> does not stay below 256: it
  is modelled with the labels of the oracle, the only place where the program uses it.
  \<open>\s\<close> and \<open>trim\<close> know the white space below 256 (tab, line feed,
  vertical tab, form feed, carriage return, space, no-break space); \<open>\w\<close> is
  \<open>[A-Za-z0-9_]\<close> and \<open>\d\<close> is \<open>[0-9]\<close>, as in a regular expression without the
  \<open>u\<close> flag.
\<close>

definition code :: "char \<Rightarrow> nat" where
  "code c = of_char c"

definition isDigit :: "char \<Rightarrow> bool" where
  "isDigit c = (48 \<le> code c \<and> code c \<le> 57)"

definition isUpper :: "char \<Rightarrow> bool" where
  "isUpper c = (65 \<le> code c \<and> code c \<le> 90)"

definition isLower :: "char \<Rightarrow> bool" where
  "isLower c = (97 \<le> code c \<and> code c \<le> 122)"

definition isWord :: "char \<Rightarrow> bool" where
  "isWord c = (isDigit c \<or> isUpper c \<or> isLower c \<or> c = CHR ''_'')"

definition isSpace :: "char \<Rightarrow> bool" where
  "isSpace c = (code c \<in> {9, 10, 11, 12, 13, 32, 160})"

definition isLineTerminator :: "char \<Rightarrow> bool" where
  "isLineTerminator c = (code c = 10 \<or> code c = 13)"

definition isHex :: "char \<Rightarrow> bool" where
  "isHex c = (isDigit c \<or> (97 \<le> code c \<and> code c \<le> 102) \<or> (65 \<le> code c \<and> code c \<le> 70))"

definition isQuote :: "char \<Rightarrow> bool" where
  "isQuote c = (c = CHR 0x22 \<or> c = CHR 0x27)"

definition isUpperLatin :: "char \<Rightarrow> bool" where
  "isUpperLatin c = (192 \<le> code c \<and> code c \<le> 222 \<and> code c \<noteq> 215)"

definition isLowerLatin :: "char \<Rightarrow> bool" where
  "isLowerLatin c = (224 \<le> code c \<and> code c \<le> 254 \<and> code c \<noteq> 247)"

definition lowerChar :: "char \<Rightarrow> char" where
  "lowerChar c = (if isUpper c \<or> isUpperLatin c then char_of (code c + 32) else c)"

definition toLowerCase :: "string \<Rightarrow> string" where
  "toLowerCase s = map lowerChar s"

definition trim :: "string \<Rightarrow> string" where
  "trim s = rev (dropWhile isSpace (rev (dropWhile isSpace s)))"

fun startsWith :: "string \<Rightarrow> string \<Rightarrow> bool" where
  "startsWith s [] = True"
| "startsWith [] (k # ks) = False"
| "startsWith (c # cs) (k # ks) = (c = k \<and> startsWith cs ks)"

definition endsWith :: "string \<Rightarrow> string \<Rightarrow> bool" where
  "endsWith s k = startsWith (rev s) (rev k)"

fun includesStr :: "string \<Rightarrow> string \<Rightarrow> bool" where
  "includesStr [] k = (k = [])"
| "includesStr (c # cs) k = (startsWith (c # cs) k \<or> includesStr cs k)"

fun join :: "'a list \<Rightarrow> 'a list list \<Rightarrow> 'a list" where
  "join sep [] = []"
| "join sep [w] = w"
| "join sep (w # v # ws) = w @ sep @ join sep (v # ws)"

text \<open>
  \<open>s.split(/\s+/)\<close>: the pieces between the maximal runs of white space; a leading or a
  trailing run leaves an empty first or last piece, and the empty string gives one empty
  piece. The flag tells whether the scan is inside a run, the accumulator holds the
  current piece reversed.
\<close>

fun splitWsFrom :: "bool \<Rightarrow> string \<Rightarrow> string \<Rightarrow> string list" where
  "splitWsFrom inRun cur [] = [rev cur]"
| "splitWsFrom inRun cur (c # cs) =
     (if isSpace c then (if inRun then splitWsFrom True cur cs else rev cur # splitWsFrom True [] cs)
      else splitWsFrom False (c # cur) cs)"

definition splitWs :: "string \<Rightarrow> string list" where
  "splitWs s = splitWsFrom False [] s"

text \<open>\<open>s.replace(/^["']|["']$/g, '')\<close>: one leading quote is removed, then one trailing
  quote of what follows it.\<close>

definition stripQuotes :: "string \<Rightarrow> string" where
  "stripQuotes s =
     (let t = (case s of [] \<Rightarrow> [] | c # cs \<Rightarrow> if isQuote c then cs else c # cs)
      in case rev t of [] \<Rightarrow> [] | d # ds \<Rightarrow> if isQuote d then rev ds else t)"

subsection \<open>Word-boundary alternations\<close>

text \<open>
  The classifiers test patterns of the shape \<open>/\b(alt|alt|...)\b/\<close>, whose alternatives are
  literal characters and \<open>.?\<close>. \<open>test\<close> succeeds iff some start position, some alternative
  and some way to match it put a word boundary at both ends, which is what the backtracking
  matcher explores. \<^term>\<open>None\<close> stands for the start or the end of the input.
\<close>

datatype pat_elem = Lit char | OptDot

definition lit :: "string \<Rightarrow> pat_elem list" where
  "lit s = map Lit s"

definition isWordAt :: "char option \<Rightarrow> bool" where
  "isWordAt c = (case c of None \<Rightarrow> False | Some d \<Rightarrow> isWord d)"

definition boundary :: "char option \<Rightarrow> char option \<Rightarrow> bool" where
  "boundary prev after = (isWordAt prev \<noteq> isWordAt after)"

definition headOpt :: "string \<Rightarrow> char option" where
  "headOpt s = (case s of [] \<Rightarrow> None | c # _ \<Rightarrow> Some c)"

text \<open>All the ways to match a pattern at the front of the input: the character before the
  position reached, and the rest of the input.\<close>

fun matchPat :: "pat_elem list \<Rightarrow> char option \<Rightarrow> string \<Rightarrow> (char option \<times> string) list" where
  "matchPat [] prev s = [(prev, s)]"
| "matchPat (Lit c # ps) prev s =
     (case s of [] \<Rightarrow> [] | d # ds \<Rightarrow> if d = c then matchPat ps (Some d) ds else [])"
| "matchPat (OptDot # ps) prev s =
     (case s of [] \<Rightarrow> [] | d # ds \<Rightarrow> if isLineTerminator d then [] else matchPat ps (Some d) ds)
     @ matchPat ps prev s"

definition matchHere :: "pat_elem list list \<Rightarrow> char option \<Rightarrow> string \<Rightarrow> bool" where
  "matchHere alts prev s =
     (boundary prev (headOpt s) \<and>
      list_ex (\<lambda>alt. list_ex (\<lambda>(b, r). boundary b (headOpt r)) (matchPat alt prev s)) alts)"

fun searchFrom :: "pat_elem list list \<Rightarrow> char option \<Rightarrow> string \<Rightarrow> bool" where
  "searchFrom alts prev [] = matchHere alts prev []"
| "searchFrom alts prev (c # cs) = (matchHere alts prev (c # cs) \<or> searchFrom alts (Some c) cs)"

definition wordTest :: "pat_elem list list \<Rightarrow> string \<Rightarrow> bool" where
  "wordTest alts s = searchFrom alts None s"

section \<open>Theme vocabulary and classifiers\<close>

definition CANONICAL_THEMES :: "string list" where
  "CANONICAL_THEMES =
     [''Authentication / Login Issues'',
      ''Support Response Delays'',
      ''Email Delivery Issues'',
      ''API Timeout Errors'',
      ''Link / Validation Errors'',
      ''Issue / Ticket Status'',
      [CHR 0x22] @ ''Needs Info'' @ [CHR 0x22] @ '' Workflow Friction'',
      ''Documentation Confusion'']"

text \<open>\<open>KEYWORD_TO_THEME\<close>: keywords (lower case) and the canonical theme they map to; the
  first rule with a keyword occurring in the text wins.\<close>

definition KEYWORD_TO_THEME :: "(string list \<times> string) list" where
  "KEYWORD_TO_THEME =
     [([''login'', ''auth'', ''password'', ''sign-in'', ''signin'', ''session'', ''token'', ''sso'',
        ''saml'', ''idp''], CANONICAL_THEMES ! 0),
      ([''delay'', ''slow'', ''response time'', ''wait'', ''support'', ''reply'', ''ticket''],
        CANONICAL_THEMES ! 1),
      ([''email'', ''delivery'', ''inbox'', ''notification'', ''mail''], CANONICAL_THEMES ! 2),
      ([''api'', ''timeout'', ''504'', ''failing'', ''gateway timeout''], CANONICAL_THEMES ! 3),
      ([''link'', ''validation'', ''invalid'', ''error'', ''broken'', ''expired'', ''verify''],
        CANONICAL_THEMES ! 4),
      ([''status'', ''confusion'', ''update'', ''tracking'', ''state''], CANONICAL_THEMES ! 5),
      ([''github'', ''needs info'', ''workflow'', ''triage'', ''issue status'', ''labels''],
        CANONICAL_THEMES ! 6),
      ([''documentation'', ''docs'', ''guide'', ''scattered'', ''right page''],
        CANONICAL_THEMES ! 7)]"

text \<open>The loop over \<open>KEYWORD_TO_THEME\<close> in \<open>toAbstractLabel\<close>.\<close>

fun keywordTheme :: "(string list \<times> string) list \<Rightarrow> string \<Rightarrow> string option" where
  "keywordTheme [] lower = None"
| "keywordTheme ((keywords, theme) # rules) lower =
     (if list_ex (\<lambda>k. includesStr lower k) keywords then Some theme else keywordTheme rules lower)"

text \<open>\<open>s.replace(/\b\d{2,}\b/g, '')\<close>: a maximal run of two or more digits with no word
  character on either side is dropped. The first argument is the character before the
  position.\<close>

function stripNumericIds :: "char option \<Rightarrow> string \<Rightarrow> string" where
  "stripNumericIds prev [] = []"
| "stripNumericIds prev (c # cs) =
     (if \<not> isWordAt prev \<and> isDigit c \<and> 2 \<le> length (takeWhile isDigit (c # cs))
         \<and> \<not> isWordAt (headOpt (dropWhile isDigit cs))
      then stripNumericIds (Some (last (takeWhile isDigit (c # cs)))) (dropWhile isDigit cs)
      else c # stripNumericIds (Some c) cs)"
  by pat_completeness auto
termination
  by (relation "measure (\<lambda>(b, s). length s)")
     (auto simp: less_Suc_eq_le length_dropWhile_le)

text \<open>The UUID shape \<open>[a-f0-9]{8}-[a-f0-9]{4}-[a-f0-9]{4}-[a-f0-9]{4}-[a-f0-9]{12}\<close>
  with the \<open>i\<close> flag, at the front of the input.\<close>

fun hexRun :: "nat \<Rightarrow> string \<Rightarrow> string option" where
  "hexRun 0 s = Some s"
| "hexRun (Suc n) [] = None"
| "hexRun (Suc n) (c # cs) = (if isHex c then hexRun n cs else None)"

definition dash :: "string \<Rightarrow> string option" where
  "dash s = (case s of [] \<Rightarrow> None | c # cs \<Rightarrow> if c = CHR ''-'' then Some cs else None)"

definition uuidAt :: "string \<Rightarrow> string option" where
  "uuidAt s = Option.bind (hexRun 8 s) (\<lambda>s1. Option.bind (dash s1) (\<lambda>s2.
                Option.bind (hexRun 4 s2) (\<lambda>s3. Option.bind (dash s3) (\<lambda>s4.
                Option.bind (hexRun 4 s4) (\<lambda>s5. Option.bind (dash s5) (\<lambda>s6.
                Option.bind (hexRun 4 s6) (\<lambda>s7. Option.bind (dash s7) (\<lambda>s8.
                hexRun 12 s8))))))))"

fun stripUuids :: "string \<Rightarrow> string" where
  "stripUuids [] = []"
| "stripUuids (c # cs) =
     (if uuidAt (c # cs) \<noteq> None then stripUuids (drop 35 cs) else c # stripUuids cs)"

text \<open>\<open>toAbstractLabel\<close>: a short label of two to five words, or a canonical theme, or
  \<open>null\<close>.\<close>

definition toAbstractLabel :: "string \<Rightarrow> string option" where
  "toAbstractLabel raw =
     (let s = trim (stripUuids (stripNumericIds None (stripQuotes raw)))
      in if s = [] \<or> length s < 3 then None
         else case keywordTheme KEYWORD_TO_THEME (toLowerCase s) of
                Some theme \<Rightarrow> Some theme
              | None \<Rightarrow>
                 (let words = take 5 (filter (\<lambda>w. 0 < length w) (splitWs s))
                  in if length words < 2 then None
                     else let label = join '' '' words
                          in if endsWith label ''.'' \<or> 50 < length label
                             then (let short = join '' '' (take 2 words)
                                   in if short = [] then None else Some short)
                             else Some label))"

text \<open>\<open>getThemeForCommentBackend\<close>: the keyword classifier of the KPI buckets.\<close>

definition reAuthBackend :: "pat_elem list list" where
  "reAuthBackend = [lit ''login'', lit ''sso'', lit ''auth'', lit ''password'', lit ''authenticate'',
     lit ''sign'' @ [OptDot] @ lit ''in'', lit ''log'' @ [OptDot] @ lit ''in'']"

definition reApiBackend :: "pat_elem list list" where
  "reApiBackend = [lit ''api'', lit ''rate'' @ [OptDot] @ lit ''limit'', lit ''timeout'', lit ''500'',
     lit ''endpoint'']"

definition rePasswordReset :: "pat_elem list list" where
  "rePasswordReset = [lit ''password reset'', lit ''reset link'', lit ''forgot password'',
     lit ''link expired'']"

definition reDeployBackend :: "pat_elem list list" where
  "reDeployBackend = [lit ''deploy'', lit ''token'', lit ''session'', lit ''invalid'']"

definition reUi :: "pat_elem list list" where
  "reUi = [lit ''ui'', lit ''interface'', lit ''ux'', lit ''design'', lit ''bug'']"

definition reNotify :: "pat_elem list list" where
  "reNotify = [lit ''email'', lit ''notification'', lit ''alert'']"

definition reRecoveryBackend :: "pat_elem list list" where
  "reRecoveryBackend = [lit ''reset'', lit ''forgot'', lit ''recovery'']"

definition reStatus :: "pat_elem list list" where
  "reStatus = [lit ''status'', lit ''confusion'', lit ''tracking'']"

definition reLatency :: "pat_elem list list" where
  "reLatency = [lit ''dashboard'', lit ''latency'', lit ''slow'', lit ''performance'']"

definition reDocs :: "pat_elem list list" where
  "reDocs = [lit ''documentation'', lit ''docs'', lit ''guide'', lit ''scattered'']"

definition getThemeForCommentBackend :: "string \<Rightarrow> string" where
  "getThemeForCommentBackend comment =
     (let text = toLowerCase comment
      in if wordTest reAuthBackend text then ''Authentication / Login Issues''
         else if wordTest reApiBackend text then ''API Timeout Errors''
         else if wordTest rePasswordReset text then ''Password Reset Issues''
         else if wordTest reDeployBackend text then ''Deployment / Session Issues''
         else if wordTest reUi text then ''UI / UX Issues''
         else if wordTest reNotify text then ''Notifications / Alerts''
         else if wordTest reRecoveryBackend text then ''Account Recovery''
         else if wordTest reStatus text then ''Issue / Ticket Status''
         else if wordTest reLatency text then ''Dashboard Latency''
         else if wordTest reDocs text then ''Documentation Confusion''
         else ''Other'')"

text \<open>\<open>normalizeToCanonicalCluster\<close>: the canonical cluster of a label proposed by the
  oracle; a label that matches no rule is returned as it is.\<close>

definition reApiCluster :: "pat_elem list list" where
  "reApiCluster = [lit ''api'', lit ''timeout'', lit ''500'', lit ''endpoint'',
     lit ''rate'' @ [OptDot] @ lit ''limit'']"

definition reAuthCluster :: "pat_elem list list" where
  "reAuthCluster = [lit ''login'', lit ''sso'', lit ''auth'', lit ''authenticate'',
     lit ''sign'' @ [OptDot] @ lit ''in'', lit ''log'' @ [OptDot] @ lit ''in'', lit ''token invalid'',
     lit ''redirect'', lit ''idp'']"

definition reDeployCluster :: "pat_elem list list" where
  "reDeployCluster = [lit ''deploy'', lit ''session'', lit ''invalid'']"

definition reRecoveryCluster :: "pat_elem list list" where
  "reRecoveryCluster = [lit ''recovery'', lit ''forgot'']"

definition normalizeToCanonicalCluster :: "string \<Rightarrow> string" where
  "normalizeToCanonicalCluster aiLabel =
     (let t = toLowerCase aiLabel
      in if wordTest rePasswordReset t then ''Password Reset Issues''
         else if wordTest reApiCluster t then ''API Timeout Errors''
         else if wordTest reAuthCluster t then ''Authentication / Login Issues''
         else if wordTest reDeployCluster t then ''Deployment / Session Issues''
         else if wordTest reUi t then ''UI / UX Issues''
         else if wordTest reNotify t then ''Notifications / Alerts''
         else if wordTest reRecoveryCluster t then ''Account Recovery''
         else if wordTest reStatus t then ''Issue / Ticket Status''
         else if wordTest reLatency t then ''Dashboard Latency''
         else if wordTest reDocs t then ''Documentation Confusion''
         else aiLabel)"

section \<open>Numbers\<close>

text \<open>
  A JavaScript number is a binary64 float. Counts are integers far below \<open>2^53\<close> (an array
  has fewer than \<open>2^32\<close> elements), so they are exact and are modelled as \<^typ>\<open>nat\<close>.
  Division and multiplication round their exact result to the nearest float, ties to the
  even significand: \<^term>\<open>fl\<close> below, on the normal range (the quotients and products of
  this program are ratios of counts, or such a ratio times 100, far from overflow and from
  the subnormal numbers). \<open>Math.round\<close> is exact on its argument: the nearest integer,
  ties towards \<open>+\<infinity>\<close>.
\<close>

definition ilog2 :: "rat \<Rightarrow> int" where
  "ilog2 x = (let (p, q) = quotient_of \<bar>x\<bar>; k = bitlen p - bitlen q
              in if 2 powi k \<le> \<bar>x\<bar> then k else k - 1)"

definition roundHalfEven :: "rat \<Rightarrow> int" where
  "roundHalfEven q =
     (let f = \<lfloor>q\<rfloor>; d = q - of_int f
      in if d < 1 / 2 then f else if 1 / 2 < d then f + 1 else if even f then f else f + 1)"

definition fl :: "rat \<Rightarrow> rat" where
  "fl x = (if x = 0 then 0
           else let ulp = 2 powi (ilog2 x - 52) in of_int (roundHalfEven (x / ulp)) * ulp)"

definition jsDiv :: "rat \<Rightarrow> rat \<Rightarrow> rat" where
  "jsDiv a b = fl (a / b)"

definition jsMul :: "rat \<Rightarrow> rat \<Rightarrow> rat" where
  "jsMul a b = fl (a * b)"

definition Math_round :: "rat \<Rightarrow> int" where
  "Math_round x = \<lfloor>x + 1 / 2\<rfloor>"

section \<open>Theme aggregation\<close>

record FeedbackRow =
  row_id :: int
  source :: string
  sentiment :: string
  comment :: string
  timestamp :: string

record ThemeRec =
  total :: nat
  enterprise :: nat
  selfServe :: nat
  negative :: nat

record AggregatedTheme =
  theme :: string
  total_mentions :: nat
  enterprise_mentions :: nat
  self_serve_mentions :: nat
  percent_negative :: int
  yesterday_mentions :: nat
  percent_change_vs_yesterday :: int

definition ENTERPRISE_SOURCES :: "string set" where
  "ENTERPRISE_SOURCES = {''customer support tickets'', ''email''}"

definition isEnterprise :: "FeedbackRow \<Rightarrow> bool" where
  "isEnterprise row = (toLowerCase (source row) \<in> ENTERPRISE_SOURCES)"

text \<open>
  A \<open>Map\<close> is an association list in insertion order with one entry per key: \<open>set\<close> on a
  new key appends (\<^const>\<open>AList.update\<close>), a change of the stored value keeps the place
  (\<^const>\<open>AList.map_entry\<close>), \<open>get\<close> is \<^const>\<open>map_of\<close>, and \<open>entries()\<close> is the list.
\<close>

definition themeKey :: "FeedbackRow \<Rightarrow> string" where
  "themeKey row = (case toAbstractLabel (comment row) of None \<Rightarrow> ''Other'' | Some t \<Rightarrow> t)"

definition bump :: "FeedbackRow \<Rightarrow> ThemeRec \<Rightarrow> ThemeRec" where
  "bump row rec =
     rec\<lparr> total := total rec + 1,
          enterprise := (if isEnterprise row then enterprise rec + 1 else enterprise rec),
          selfServe := (if isEnterprise row then selfServe rec else selfServe rec + 1),
          negative := (if toLowerCase (sentiment row) = ''negative'' then negative rec + 1
                       else negative rec) \<rparr>"

text \<open>The inner function \<open>add\<close> of \<open>aggregateThemes\<close>, on the map it updates.\<close>

definition add :: "FeedbackRow \<Rightarrow> bool \<Rightarrow> (string \<times> ThemeRec) list \<Rightarrow> (string \<times> ThemeRec) list" where
  "add row isToday themeMap =
     (let key = themeKey row;
          themeMap1 = (if map_of themeMap key = None
                       then AList.update key \<lparr>total = 0, enterprise = 0, selfServe = 0, negative = 0\<rparr> themeMap
                       else themeMap)
      in if \<not> isToday then themeMap1 else AList.map_entry key (bump row) themeMap1)"

definition countYesterday :: "FeedbackRow \<Rightarrow> (string \<times> nat) list \<Rightarrow> (string \<times> nat) list" where
  "countYesterday r m =
     (let t = themeKey r
      in AList.update t ((case map_of m t of None \<Rightarrow> 0 | Some n \<Rightarrow> n) + 1) m)"

definition percentChange :: "nat \<Rightarrow> nat \<Rightarrow> int" where
  "percentChange today_total yesterday =
     (if 0 < yesterday
      then Math_round (jsMul (jsDiv (of_int (int today_total - int yesterday)) (of_nat yesterday)) 100)
      else if 0 < today_total then 100 else 0)"

definition percentNegative :: "ThemeRec \<Rightarrow> int" where
  "percentNegative rec =
     (if 0 < total rec then Math_round (jsMul (jsDiv (of_nat (negative rec)) (of_nat (total rec))) 100)
      else 0)"

text \<open>The body of the loop over \<open>themeMap.entries()\<close>.\<close>

definition aggregateEntry :: "(string \<times> nat) list \<Rightarrow> string \<times> ThemeRec \<Rightarrow> AggregatedTheme" where
  "aggregateEntry yesterdayByTheme e =
     (let yesterday = (case map_of yesterdayByTheme (fst e) of None \<Rightarrow> 0 | Some n \<Rightarrow> n)
      in \<lparr> theme = fst e,
           total_mentions = total (snd e),
           enterprise_mentions = enterprise (snd e),
           self_serve_mentions = selfServe (snd e),
           percent_negative = percentNegative (snd e),
           yesterday_mentions = yesterday,
           percent_change_vs_yesterday = percentChange (total (snd e)) yesterday \<rparr>)"

definition todayThemeMap :: "FeedbackRow list \<Rightarrow> (string \<times> ThemeRec) list" where
  "todayThemeMap todayItems = foldl (\<lambda>m r. add r True m) [] todayItems"

definition yesterdayCounts :: "FeedbackRow list \<Rightarrow> (string \<times> nat) list" where
  "yesterdayCounts yesterdayItems = foldl (\<lambda>m r. countYesterday r m) [] yesterdayItems"

definition aggregateThemes :: "FeedbackRow list \<Rightarrow> FeedbackRow list \<Rightarrow> AggregatedTheme list" where
  "aggregateThemes todayItems yesterdayItems =
     map (aggregateEntry (yesterdayCounts yesterdayItems)) (todayThemeMap todayItems)"

subsection \<open>The percent change of the specification\<close>

text \<open>
  The percent change as the specification writes it, in exact arithmetic:
  \<open>round((today - yesterday) / yesterday * 100)\<close> when yesterday's count is positive,
  \<^const>\<open>round\<close> being the nearest integer with a half going up; else 100 if today's
  count is positive, else 0. The exact change is halfway when it lies in the middle
  between two integers.
\<close>

definition exactChange :: "nat \<Rightarrow> nat \<Rightarrow> rat" where
  "exactChange today_total yesterday = of_int (int today_total - int yesterday) / of_nat yesterday * 100"

definition specPercentChange :: "nat \<Rightarrow> nat \<Rightarrow> int" where
  "specPercentChange today_total yesterday =
     (if 0 < yesterday then round (exactChange today_total yesterday)
      else if 0 < today_total then 100 else 0)"


section \<open>Risk score and headline selection\<close>

datatype RiskLevel = Critical | Monitor | LowImpact

datatype Icon = RedCircle | YellowCircle | GreenCircle

record ScoredTheme = AggregatedTheme +
  risk_score :: nat
  risk_level :: RiskLevel
  icon :: Icon

definition computeRiskScore :: "AggregatedTheme \<Rightarrow> nat \<times> RiskLevel" where
  "computeRiskScore agg =
     (let base = enterprise_mentions agg * 3 + self_serve_mentions agg * 1;
          score = (if 50 \<le> percent_negative agg then base + 2 else base)
      in if 20 \<le> score then (score, Critical)
         else if 10 \<le> score then (score, Monitor)
         else (score, LowImpact))"

definition riskIcon :: "RiskLevel \<Rightarrow> Icon" where
  "riskIcon level = (if level = Critical then RedCircle else if level = Monitor then YellowCircle
                     else GreenCircle)"

definition withRisk :: "AggregatedTheme \<Rightarrow> ScoredTheme" where
  "withRisk a =
     (let risk = computeRiskScore a
      in \<lparr> theme = theme a,
           total_mentions = total_mentions a,
           enterprise_mentions = enterprise_mentions a,
           self_serve_mentions = self_serve_mentions a,
           percent_negative = percent_negative a,
           yesterday_mentions = yesterday_mentions a,
           percent_change_vs_yesterday = percent_change_vs_yesterday a,
           risk_score = fst risk,
           risk_level = snd risk,
           icon = riskIcon (snd risk) \<rparr>)"

definition aggregatedWithRisk :: "AggregatedTheme list \<Rightarrow> ScoredTheme list" where
  "aggregatedWithRisk aggregated = map withRisk aggregated"

text \<open>The scored themes of the dashboard: \<open>aggregateThemes\<close>, then the risk of each
  aggregate.\<close>

definition scoredThemes :: "FeedbackRow list \<Rightarrow> FeedbackRow list \<Rightarrow> ScoredTheme list" where
  "scoredThemes todayItems yesterdayItems = aggregatedWithRisk (aggregateThemes todayItems yesterdayItems)"

text \<open>The order in which values are first seen in a list: each value once, at the place of
  its first occurrence.\<close>

fun firstSeen :: "'a list \<Rightarrow> 'a list" where
  "firstSeen [] = []"
| "firstSeen (x # xs) = x # filter (\<lambda>y. y \<noteq> x) (firstSeen xs)"

text \<open>
  \<open>Array.prototype.sort\<close> with a comparator is stable: elements that compare equal keep
  their order. For a comparator that orders by a key, the result is the one of inserting
  the elements from the last to the first, each before the first element that does not
  precede it.
\<close>

fun insertBy :: "('a \<Rightarrow> 'a \<Rightarrow> int) \<Rightarrow> 'a \<Rightarrow> 'a list \<Rightarrow> 'a list" where
  "insertBy cmp x [] = [x]"
| "insertBy cmp x (y # ys) = (if cmp x y \<le> 0 then x # y # ys else y # insertBy cmp x ys)"

definition sortBy :: "('a \<Rightarrow> 'a \<Rightarrow> int) \<Rightarrow> 'a list \<Rightarrow> 'a list" where
  "sortBy cmp xs = foldr (insertBy cmp) xs []"

definition riskDesc :: "ScoredTheme \<Rightarrow> ScoredTheme \<Rightarrow> int" where
  "riskDesc a b = int (risk_score b) - int (risk_score a)"

definition byRiskDesc :: "ScoredTheme list \<Rightarrow> ScoredTheme list" where
  "byRiskDesc scored = sortBy riskDesc scored"

definition bestLow :: "ScoredTheme list \<Rightarrow> ScoredTheme option" where
  "bestLow scored =
     (case sortBy riskDesc (filter (\<lambda>x. risk_level x = LowImpact) scored) of
        [] \<Rightarrow> None | b # _ \<Rightarrow> Some b)"

definition candidate3 :: "ScoredTheme list \<Rightarrow> ScoredTheme list" where
  "candidate3 scored = take 3 (byRiskDesc scored)"

definition hasLowInTop3 :: "ScoredTheme list \<Rightarrow> bool" where
  "hasLowInTop3 scored = list_ex (\<lambda>x. risk_level x = LowImpact) (candidate3 scored)"

definition top3 :: "ScoredTheme list \<Rightarrow> ScoredTheme list" where
  "top3 scored =
     (case bestLow scored of
        Some low \<Rightarrow>
          if \<not> hasLowInTop3 scored \<and> 3 \<le> length (candidate3 scored)
          then [candidate3 scored ! 0, candidate3 scored ! 1, low]
          else candidate3 scored
      | None \<Rightarrow> candidate3 scored)"

section \<open>KPI buckets\<close>

record Kpi =
  label :: string
  count :: nat
  enterpriseCount :: nat

definition kpiOf :: "string \<Rightarrow> FeedbackRow list \<Rightarrow> Kpi" where
  "kpiOf l rows = \<lparr> label = l, count = length rows, enterpriseCount = length (filter isEnterprise rows) \<rparr>"

definition KPI_EXCLUDED_THEMES :: "string set" where
  "KPI_EXCLUDED_THEMES = {''Notifications / Alerts'', ''Issue / Ticket Status''}"

text \<open>\<open>byTheme\<close>: the rows of each theme, in the order the themes are first seen.\<close>

definition pushRow :: "string \<Rightarrow> FeedbackRow \<Rightarrow> (string \<times> FeedbackRow list) list \<Rightarrow> (string \<times> FeedbackRow list) list" where
  "pushRow key r byTheme =
     AList.map_entry key (\<lambda>rows. rows @ [r])
       (if map_of byTheme key = None then AList.update key [] byTheme else byTheme)"

definition byCountDesc :: "string \<times> FeedbackRow list \<Rightarrow> string \<times> FeedbackRow list \<Rightarrow> int" where
  "byCountDesc a b = int (length (snd b)) - int (length (snd a))"

definition groupFallback :: "string set \<Rightarrow> (string \<times> FeedbackRow list) list \<Rightarrow> FeedbackRow \<Rightarrow> (string \<times> FeedbackRow list) list" where
  "groupFallback excludeThemes byTheme r =
     (let t = getThemeForCommentBackend (comment r)
      in if t = ''Other'' \<or> t \<in> excludeThemes then byTheme else pushRow t r byTheme)"

text \<open>\<open>fallbackThemeAndCount\<close>; \<^term>\<open>None\<close> is \<open>null\<close>. An absent or empty
  \<open>preferTheme\<close> is falsy.\<close>

definition fallbackThemeAndCount :: "FeedbackRow list \<Rightarrow> string set \<Rightarrow> string option \<Rightarrow> Kpi option" where
  "fallbackThemeAndCount items excludeThemes preferTheme =
     (if items = [] then None
      else let byTheme = foldl (groupFallback excludeThemes) [] items;
               preferred = (case preferTheme of
                              None \<Rightarrow> None
                            | Some p \<Rightarrow> if p = [] then None
                                       else map_option (\<lambda>rows. kpiOf p rows) (map_of byTheme p))
           in case preferred of
                Some k \<Rightarrow> Some k
              | None \<Rightarrow> (case sortBy byCountDesc byTheme of
                           [] \<Rightarrow> None
                         | e # _ \<Rightarrow> Some (kpiOf (fst e) (snd e))))"

definition LOW_IMPACT_MAX_ISSUES :: nat where
  "LOW_IMPACT_MAX_ISSUES = 3"

definition groupLow :: "string set \<Rightarrow> bool \<Rightarrow> (string \<times> FeedbackRow list) list \<Rightarrow> FeedbackRow \<Rightarrow> (string \<times> FeedbackRow list) list" where
  "groupLow excludeThemes includeOther byTheme r =
     (let t = getThemeForCommentBackend (comment r)
      in if (\<not> includeOther \<and> t = ''Other'') \<or> t \<in> excludeThemes then byTheme
         else pushRow (if t = ''Other'' \<and> includeOther then ''Various feedback'' else t) r byTheme)"

definition getTopThemesForLowBucket :: "FeedbackRow list \<Rightarrow> string set \<Rightarrow> bool \<Rightarrow> Kpi list" where
  "getTopThemesForLowBucket items excludeThemes includeOther =
     (if items = [] then []
      else map (\<lambda>e. kpiOf (fst e) (snd e))
             (take LOW_IMPACT_MAX_ISSUES
               (sortBy byCountDesc (foldl (groupLow excludeThemes includeOther) [] items))))"

definition MONITOR_PREFERRED_THEME :: string where
  "MONITOR_PREFERRED_THEME = ''Authentication / Login Issues''"

text \<open>The \<open>/api/kpi-themes\<close> route, from the rows read to the body of the response.
  \<open>if (k?.label) s.add(k.label)\<close> is \<^term>\<open>addLabel\<close>.\<close>

record KpiThemes =
  critical :: "Kpi option"
  monitor :: "Kpi option"
  low :: "Kpi list option"

definition addLabel :: "Kpi option \<Rightarrow> string set \<Rightarrow> string set" where
  "addLabel k s = (case k of None \<Rightarrow> s | Some v \<Rightarrow> if label v = [] then s else insert (label v) s)"

definition bucket :: "string \<Rightarrow> FeedbackRow list \<Rightarrow> FeedbackRow list" where
  "bucket sent items = filter (\<lambda>r. toLowerCase (sentiment r) = sent) items"

definition lowIssuesOf :: "FeedbackRow list \<Rightarrow> string set \<Rightarrow> Kpi option \<Rightarrow> Kpi option \<Rightarrow> Kpi list" where
  "lowIssuesOf lowItems monitorExclude crit mon =
     (let lowExclude = addLabel mon monitorExclude;
          lowIssues1 = getTopThemesForLowBucket lowItems lowExclude False;
          lowIssues2 = (if lowIssues1 = [] \<and> lowItems \<noteq> []
                        then getTopThemesForLowBucket lowItems (addLabel mon (addLabel crit {})) False
                        else lowIssues1)
      in if lowIssues2 = [] \<and> lowItems \<noteq> []
         then getTopThemesForLowBucket lowItems (addLabel mon (addLabel crit {})) True
         else lowIssues2)"

text \<open>The constants \<open>critical\<close>, \<open>monitorExclude\<close>, \<open>monitor\<close> and \<open>lowIssues\<close> of the
  route, each as a function of the rows, and the body of the response.\<close>

definition kpiCritical :: "FeedbackRow list \<Rightarrow> Kpi option" where
  "kpiCritical items =
     (let criticalItems = bucket ''negative'' items
      in if criticalItems \<noteq> [] then fallbackThemeAndCount criticalItems {} None else None)"

definition kpiMonitorExclude :: "FeedbackRow list \<Rightarrow> string set" where
  "kpiMonitorExclude items = addLabel (kpiCritical items) KPI_EXCLUDED_THEMES"

definition kpiMonitor :: "FeedbackRow list \<Rightarrow> Kpi option" where
  "kpiMonitor items =
     (let monitorItems = bucket ''neutral'' items
      in if monitorItems \<noteq> []
         then fallbackThemeAndCount monitorItems (kpiMonitorExclude items) (Some MONITOR_PREFERRED_THEME)
         else None)"

definition kpiLowIssues :: "FeedbackRow list \<Rightarrow> Kpi list" where
  "kpiLowIssues items =
     lowIssuesOf (bucket ''positive'' items) (kpiMonitorExclude items) (kpiCritical items) (kpiMonitor items)"

definition kpiThemes :: "FeedbackRow list \<Rightarrow> KpiThemes" where
  "kpiThemes items =
     \<lparr> critical = kpiCritical items, monitor = kpiMonitor items,
       low = (if kpiLowIssues items \<noteq> [] then Some (kpiLowIssues items) else None) \<rparr>"

section \<open>The oracle\<close>

text \<open>
  \<open>env.AI.run\<close> is the oracle: it throws (with a message), or it returns something from which the caller
  reads a text (\<open>result\<close> itself, or its \<open>response\<close> or \<open>result\<close> field). When what is
  read is not a string, the \<open>trim\<close> of \<open>parseAiJson\<close> throws. \<open>JSON.parse\<close> is a built-in
  of the platform, taken as a parameter: \<^term>\<open>None\<close> when it throws.
\<close>

datatype json = JNull | JBool bool | JNum rat | JStr string | JArr "json list"
  | JObj "(string \<times> json) list"

datatype ai_result = AiThrows string | AiNotText | AiText string

type_synonym Ai = "string \<Rightarrow> ai_result"

type_synonym JsonParse = "string \<Rightarrow> json option"

definition dropEndWs :: "string \<Rightarrow> string" where
  "dropEndWs s = rev (dropWhile isSpace (rev s))"

text \<open>\<open>raw.replace(/^```(?:json)?\s*/i, '')\<close> on a text that starts with the fence.\<close>

definition stripFenceStart :: "string \<Rightarrow> string" where
  "stripFenceStart raw =
     (let r = drop 3 raw;
          r1 = (if startsWith (toLowerCase r) ''json'' then drop 4 r else r)
      in dropWhile isSpace r1)"

text \<open>\<open>.replace(/\s*```\s*$/, '')\<close>: a fence that only white space follows is removed
  with the white space around it.\<close>

definition stripFenceEnd :: "string \<Rightarrow> string" where
  "stripFenceEnd s =
     (let t = dropEndWs s
      in if endsWith t ''```'' then dropEndWs (take (length t - 3) t) else s)"

definition parseAiJson :: "JsonParse \<Rightarrow> string \<Rightarrow> json option" where
  "parseAiJson JSON_parse text =
     (let raw = trim text
      in JSON_parse (if startsWith raw ''```'' then stripFenceEnd (stripFenceStart raw) else raw))"

definition field :: "json \<Rightarrow> string \<Rightarrow> json option" where
  "field v name = (case v of JObj fs \<Rightarrow> map_of fs name | _ \<Rightarrow> None)"

subsection \<open>Labels: code units above 255\<close>

text \<open>
  \<open>toUpperCase\<close> changes, among the code units below 256, the letters \<open>a-z\<close> and the small
  letters \<open>U+00E0\<close> to \<open>U+00FE\<close> (the division sign \<open>U+00F7\<close> is not a letter), each
  to the code unit 32 below it; the sharp s \<open>U+00DF\<close>, to the two letters \<open>SS\<close>; and two
  code units to capital letters above 255: the y with diaeresis \<open>U+00FF\<close> to \<open>U+0178\<close>, and
  the micro sign \<open>U+00B5\<close> to the capital mu \<open>U+039C\<close>, whose lower case is the small mu
  \<open>U+03BC\<close>. A label that has gone through \<open>postProcessThemeLabel\<close> is therefore a list of
  \<open>cu\<close>: the code units below 256 and these three. Both case conversions map this
  set of code units into itself. The three are neither white space, nor word characters,
  nor line terminators.
\<close>

datatype cu = Latin char | U0178 | U039C | U03BC

type_synonym ustring = "cu list"

definition widen :: "string \<Rightarrow> ustring" where
  "widen s = map Latin s"

definition upperUnits :: "char \<Rightarrow> ustring" where
  "upperUnits c =
     (if isLower c \<or> isLowerLatin c then [Latin (char_of (code c - 32))]
      else if code c = 223 then [Latin (CHR ''S''), Latin (CHR ''S'')]
      else if code c = 255 then [U0178]
      else if code c = 181 then [U039C]
      else [Latin c])"

definition toUpperCase :: "string \<Rightarrow> ustring" where
  "toUpperCase s = concat (map upperUnits s)"

fun lowerUnit :: "cu \<Rightarrow> cu" where
  "lowerUnit (Latin c) = Latin (lowerChar c)"
| "lowerUnit U0178 = Latin (CHR 0xFF)"
| "lowerUnit U039C = U03BC"
| "lowerUnit U03BC = U03BC"

definition toLowerCaseU :: "ustring \<Rightarrow> ustring" where
  "toLowerCaseU s = map lowerUnit s"

fun isSpaceU :: "cu \<Rightarrow> bool" where
  "isSpaceU (Latin c) = isSpace c"
| "isSpaceU u = False"

fun isWordU :: "cu \<Rightarrow> bool" where
  "isWordU (Latin c) = isWord c"
| "isWordU u = False"

fun isLineTerminatorU :: "cu \<Rightarrow> bool" where
  "isLineTerminatorU (Latin c) = isLineTerminator c"
| "isLineTerminatorU u = False"

text \<open>\<open>s.split(/\s+/)\<close> and the word-boundary alternations, on such labels: the
  functions \<^const>\<open>splitWsFrom\<close>, \<^const>\<open>matchPat\<close>, \<^const>\<open>matchHere\<close>,
  \<^const>\<open>searchFrom\<close> and \<^const>\<open>wordTest\<close> with \<^typ>\<open>cu\<close> for \<^typ>\<open>char\<close>.\<close>

fun splitWsFromU :: "bool \<Rightarrow> ustring \<Rightarrow> ustring \<Rightarrow> ustring list" where
  "splitWsFromU inRun cur [] = [rev cur]"
| "splitWsFromU inRun cur (c # cs) =
     (if isSpaceU c then (if inRun then splitWsFromU True cur cs else rev cur # splitWsFromU True [] cs)
      else splitWsFromU False (c # cur) cs)"

definition splitWsU :: "ustring \<Rightarrow> ustring list" where
  "splitWsU s = splitWsFromU False [] s"

definition isWordAtU :: "cu option \<Rightarrow> bool" where
  "isWordAtU c = (case c of None \<Rightarrow> False | Some d \<Rightarrow> isWordU d)"

definition boundaryU :: "cu option \<Rightarrow> cu option \<Rightarrow> bool" where
  "boundaryU prev after = (isWordAtU prev \<noteq> isWordAtU after)"

definition headOptU :: "ustring \<Rightarrow> cu option" where
  "headOptU s = (case s of [] \<Rightarrow> None | c # _ \<Rightarrow> Some c)"

fun matchPatU :: "pat_elem list \<Rightarrow> cu option \<Rightarrow> ustring \<Rightarrow> (cu option \<times> ustring) list" where
  "matchPatU [] prev s = [(prev, s)]"
| "matchPatU (Lit c # ps) prev s =
     (case s of [] \<Rightarrow> [] | d # ds \<Rightarrow> if d = Latin c then matchPatU ps (Some d) ds else [])"
| "matchPatU (OptDot # ps) prev s =
     (case s of [] \<Rightarrow> [] | d # ds \<Rightarrow> if isLineTerminatorU d then [] else matchPatU ps (Some d) ds)
     @ matchPatU ps prev s"

definition matchHereU :: "pat_elem list list \<Rightarrow> cu option \<Rightarrow> ustring \<Rightarrow> bool" where
  "matchHereU alts prev s =
     (boundaryU prev (headOptU s) \<and>
      list_ex (\<lambda>alt. list_ex (\<lambda>(b, r). boundaryU b (headOptU r)) (matchPatU alt prev s)) alts)"

fun searchFromU :: "pat_elem list list \<Rightarrow> cu option \<Rightarrow> ustring \<Rightarrow> bool" where
  "searchFromU alts prev [] = matchHereU alts prev []"
| "searchFromU alts prev (c # cs) = (matchHereU alts prev (c # cs) \<or> searchFromU alts (Some c) cs)"

definition wordTestU :: "pat_elem list list \<Rightarrow> ustring \<Rightarrow> bool" where
  "wordTestU alts s = searchFromU alts None s"

text \<open>\<open>normalizeToCanonicalCluster\<close> on a label of the oracle. On a label with code units
  below 256 it is \<^const>\<open>normalizeToCanonicalCluster\<close> (lemma
  \<open>normalizeToCanonicalClusterU_widen\<close>).\<close>

definition normalizeToCanonicalClusterU :: "ustring \<Rightarrow> ustring" where
  "normalizeToCanonicalClusterU aiLabel =
     (let t = toLowerCaseU aiLabel
      in if wordTestU rePasswordReset t then widen ''Password Reset Issues''
         else if wordTestU reApiCluster t then widen ''API Timeout Errors''
         else if wordTestU reAuthCluster t then widen ''Authentication / Login Issues''
         else if wordTestU reDeployCluster t then widen ''Deployment / Session Issues''
         else if wordTestU reUi t then widen ''UI / UX Issues''
         else if wordTestU reNotify t then widen ''Notifications / Alerts''
         else if wordTestU reRecoveryCluster t then widen ''Account Recovery''
         else if wordTestU reStatus t then widen ''Issue / Ticket Status''
         else if wordTestU reLatency t then widen ''Dashboard Latency''
         else if wordTestU reDocs t then widen ''Documentation Confusion''
         else aiLabel)"

text \<open>\<open>countForCluster\<close>: the cluster compared with the theme of each record may be a
  label of the oracle.\<close>

definition countForCluster :: "FeedbackRow list \<Rightarrow> ustring \<Rightarrow> nat \<times> nat" where
  "countForCluster items cluster =
     (let matching = filter (\<lambda>r. widen (getThemeForCommentBackend (comment r)) = cluster) items
      in (length matching, length (filter isEnterprise matching)))"

text \<open>The result of \<open>generateThemeWithCount\<close>, whose label may be a label of the oracle,
  and the result of \<open>fallbackThemeAndCount\<close> as such a result.\<close>

record WideKpi =
  wlabel :: ustring
  wcount :: nat
  wenterpriseCount :: nat

definition widenKpi :: "Kpi \<Rightarrow> WideKpi" where
  "widenKpi k = \<lparr> wlabel = widen (label k), wcount = count k, wenterpriseCount = enterpriseCount k \<rparr>"

subsection \<open>\<open>postProcessThemeLabel\<close>\<close>

definition FILLER_PREFIXES :: "string list" where
  "FILLER_PREFIXES = [''Improvement in'', ''Issues with'', ''Problems related to'', ''Problem with'',
     ''Issue with'', ''Lack of'', ''Difficulty with'']"

definition stripFiller :: "string \<Rightarrow> string" where
  "stripFiller s =
     (case find (\<lambda>p. startsWith (toLowerCase s) (toLowerCase p)) FILLER_PREFIXES of
        None \<Rightarrow> s
      | Some p \<Rightarrow> dropWhile isSpace (drop (length p) s))"

text \<open>\<open>s.replace(/^(The |A )\b/gi, '')\<close>: the article goes when a word character follows
  its space.\<close>

definition stripArticle :: "string \<Rightarrow> string" where
  "stripArticle s =
     (if startsWith (toLowerCase s) ''the '' \<and> isWordAt (headOpt (drop 4 s)) then drop 4 s
      else if startsWith (toLowerCase s) ''a '' \<and> isWordAt (headOpt (drop 2 s)) then drop 2 s
      else s)"

text \<open>\<open>w.length >= 2 && w === w.toUpperCase() ? w :
  w.charAt(0).toUpperCase() + w.slice(1).toLowerCase()\<close>.\<close>

definition titleWord :: "string \<Rightarrow> ustring" where
  "titleWord w =
     (if 2 \<le> length w \<and> widen w = toUpperCase w then widen w
      else toUpperCase (take 1 w) @ widen (toLowerCase (drop 1 w)))"

definition postProcessThemeLabel :: "string \<Rightarrow> ustring" where
  "postProcessThemeLabel raw =
     (let s0 = takeWhile (\<lambda>c. c \<noteq> CHR 0x0A) (stripQuotes (trim raw));
          s1 = trim (stripArticle (stripFiller s0));
          words = take 5 (filter (\<lambda>w. w \<noteq> []) (splitWs s1))
      in join [Latin (CHR '' '')] (map titleWord words))"

subsection \<open>\<open>generateThemeWithCount\<close>\<close>

function showNat :: "nat \<Rightarrow> string" where
  "showNat n = (if n < 10 then [char_of (48 + n)] else showNat (n div 10) @ [char_of (48 + n mod 10)])"
  by pat_completeness auto
termination
  by (relation "measure id") auto

definition numbered :: "string list \<Rightarrow> string" where
  "numbered comments =
     join [CHR 0x0A] (map (\<lambda>(i, c). showNat (i + 1) @ ''. '' @ c) (enumerate 0 comments))"

definition themePrompt :: "string list \<Rightarrow> string" where
  "themePrompt comments =
     join [CHR 0x0A]
       [''You are analyzing product feedback. From the following comments, identify the single most recurring specific issue affecting enterprise customers or core product reliability. Return only a JSON object in this format:'',
        ''{'',
        ''  '' @ [CHR 0x22] @ ''issue'' @ [CHR 0x22] @ '': '' @ [CHR 0x22] @ ''Short 2-5 word label'' @ [CHR 0x22] @ '','',
        ''  '' @ [CHR 0x22] @ ''matching_indices'' @ [CHR 0x22] @ '': [1, 2, 5, 7]'',
        ''}'',
        ''The matching_indices array must contain the 1-based line numbers of comments that describe this specific issue. Do not return explanations. Do not return generic phrases. The issue must reflect actual user-reported problems. Maximum 5 words.'',
        [],
        ''Comments:'',
        numbered comments]"

definition KPI_MIN_SHARE :: rat where
  "KPI_MIN_SHARE = fl (5 / 100)"

datatype exn = Thrown

text \<open>What \<open>generateThemeWithCount\<close> returns where the code returns
  \<open>fallbackThemeAndCount(items, excludeThemes, preferTheme)\<close>.\<close>

definition fallbackResult :: "FeedbackRow list \<Rightarrow> string set \<Rightarrow> string option \<Rightarrow> WideKpi option" where
  "fallbackResult items excludeThemes preferTheme =
     map_option widenKpi (fallbackThemeAndCount items excludeThemes preferTheme)"

text \<open>The \<open>try\<close> block from \<open>postProcessThemeLabel(rawLabel)\<close> on.\<close>

definition acceptOracle :: "FeedbackRow list \<Rightarrow> string set \<Rightarrow> string option \<Rightarrow> string \<Rightarrow> WideKpi option" where
  "acceptOracle items excludeThemes preferTheme l =
     (let processedLabel = postProcessThemeLabel l
      in if 5 < length (splitWsU processedLabel)
         then fallbackResult items excludeThemes preferTheme
         else let canonicalCluster = normalizeToCanonicalClusterU processedLabel
              in if canonicalCluster \<in> widen ` excludeThemes
                 then fallbackResult items excludeThemes preferTheme
                 else let cc = countForCluster items canonicalCluster
                      in if of_nat (fst cc) < jsMul KPI_MIN_SHARE (of_nat (length items))
                         then fallbackResult items excludeThemes preferTheme
                         else let preferred = (case preferTheme of
                                                 None \<Rightarrow> None
                                               | Some p \<Rightarrow>
                                                  if p \<noteq> [] \<and> p \<notin> excludeThemes
                                                       \<and> 1 \<le> fst (countForCluster items (widen p))
                                                  then Some p else None)
                              in case preferred of
                                   Some p \<Rightarrow> Some \<lparr>wlabel = widen p,
                                                    wcount = fst (countForCluster items (widen p)),
                                                    wenterpriseCount = snd (countForCluster items (widen p))\<rparr>
                                 | None \<Rightarrow> Some \<lparr>wlabel = canonicalCluster, wcount = fst cc,
                                                  wenterpriseCount = snd cc\<rparr>)"

text \<open>The \<open>try\<close> block: \<^term>\<open>Inl Thrown\<close> when something in it throws, else what it
  returns.\<close>

definition tryOracle :: "Ai option \<Rightarrow> JsonParse \<Rightarrow> FeedbackRow list \<Rightarrow> string set \<Rightarrow> string option \<Rightarrow> exn + WideKpi option" where
  "tryOracle AI JSON_parse items excludeThemes preferTheme =
     (case AI of
        None \<Rightarrow> Inl Thrown
      | Some run \<Rightarrow>
         (case run (themePrompt (take 50 (map comment items))) of
            AiThrows message \<Rightarrow> Inl Thrown
          | AiNotText \<Rightarrow> Inl Thrown
          | AiText text \<Rightarrow>
             (case parseAiJson JSON_parse text of
                None \<Rightarrow> Inl Thrown
              | Some parsed \<Rightarrow>
                 (let rawLabel = (case field parsed ''issue'' of Some (JStr i) \<Rightarrow> Some (trim i) | _ \<Rightarrow> None);
                      indices = (case field parsed ''matching_indices'' of Some (JArr a) \<Rightarrow> a | _ \<Rightarrow> [])
                  in case rawLabel of
                       None \<Rightarrow> Inr (fallbackResult items excludeThemes preferTheme)
                     | Some l \<Rightarrow>
                        if l = [] \<or> indices = []
                        then Inr (fallbackResult items excludeThemes preferTheme)
                        else Inr (acceptOracle items excludeThemes preferTheme l)))))"

definition generateThemeWithCount :: "Ai option \<Rightarrow> JsonParse \<Rightarrow> FeedbackRow list \<Rightarrow> string set \<Rightarrow> string option \<Rightarrow> WideKpi option" where
  "generateThemeWithCount AI JSON_parse items excludeThemes preferTheme =
     (if items = [] then None
      else case tryOracle AI JSON_parse items excludeThemes preferTheme of
             Inl Thrown \<Rightarrow> fallbackResult items excludeThemes preferTheme
           | Inr r \<Rightarrow> r)"

subsection \<open>When the oracle's answer is not used\<close>

text \<open>
  The conditions of the specification under which \<open>generateThemeWithCount\<close> must fall back,
  written from its words. \<^term>\<open>oracleAnswer\<close> is the value parsed from the oracle's text,
  \<^term>\<open>None\<close> when the call throws or its output cannot be parsed; the issue label is the
  trimmed \<open>issue\<close> when it is a string and empty otherwise; the matching indices are the
  \<open>matching_indices\<close> when they are an array and empty otherwise. The matched count is below
  5% of the bucket size when twenty times the count is below the size.
\<close>

definition oracleAnswer :: "Ai option \<Rightarrow> JsonParse \<Rightarrow> FeedbackRow list \<Rightarrow> json option" where
  "oracleAnswer AI JSON_parse items =
     (case AI of
        None \<Rightarrow> None
      | Some run \<Rightarrow> (case run (themePrompt (take 50 (map comment items))) of
                      AiText text \<Rightarrow> parseAiJson JSON_parse text
                    | _ \<Rightarrow> None))"

definition issueLabel :: "json \<Rightarrow> string" where
  "issueLabel parsed = (case field parsed ''issue'' of Some (JStr i) \<Rightarrow> trim i | _ \<Rightarrow> [])"

definition matchingIndices :: "json \<Rightarrow> json list" where
  "matchingIndices parsed = (case field parsed ''matching_indices'' of Some (JArr a) \<Rightarrow> a | _ \<Rightarrow> [])"

definition canonicalLabel :: "json \<Rightarrow> ustring" where
  "canonicalLabel parsed = normalizeToCanonicalClusterU (postProcessThemeLabel (issueLabel parsed))"

definition oracleRejected :: "Ai option \<Rightarrow> JsonParse \<Rightarrow> FeedbackRow list \<Rightarrow> string set \<Rightarrow> bool" where
  "oracleRejected AI JSON_parse items excludeThemes =
     (case oracleAnswer AI JSON_parse items of
        None \<Rightarrow> True
      | Some parsed \<Rightarrow>
          issueLabel parsed = [] \<or>
          matchingIndices parsed = [] \<or>
          5 < length (splitWsU (postProcessThemeLabel (issueLabel parsed))) \<or>
          canonicalLabel parsed \<in> widen ` excludeThemes \<or>
          20 * fst (countForCluster items (canonicalLabel parsed)) < length items)"

section \<open>The \<open>/api/summary\<close> route and the module state\<close>

text \<open>
  The variables of the module: the summary cache (\<open>cachedSummary\<close>, \<open>cachedAt\<close>), the
  dashboard cache and the executive-summary cache (each \<open>date\<close>, text, \<open>cachedAt\<close>).
  Times are milliseconds. A \<open>Summary\<close> travels as JSON, and is modelled as such.
\<close>

record ModuleState =
  cachedSummary :: "json option"
  cachedAt :: int
  dashboardCache :: "(string \<times> string \<times> int) option"
  execSummaryCache :: "(string \<times> string \<times> int) option"

definition initialState :: ModuleState where
  "initialState = \<lparr> cachedSummary = None, cachedAt = 0, dashboardCache = None, execSummaryCache = None \<rparr>"

definition CACHE_TTL_MS :: int where
  "CACHE_TTL_MS = 30000"

definition DASHBOARD_CACHE_TTL_MS :: int where
  "DASHBOARD_CACHE_TTL_MS = 120000"

definition EXEC_SUMMARY_CACHE_TTL_MS :: int where
  "EXEC_SUMMARY_CACHE_TTL_MS = 300000"

datatype db_result = DbThrows string | DbRows "FeedbackRow list"

record Env =
  FEEDBACK_DB :: "db_result option"
  AI :: "Ai option"

datatype Response = Response nat json

text \<open>U+2026, the one character above 255 that the program writes: it stands here as
  its three UTF-8 bytes. It only occurs at the end of texts that are sent out.\<close>

definition ELLIPSIS :: string where
  "ELLIPSIS = [CHR 0xE2, CHR 0x80, CHR 0xA6]"

definition uniq :: "'a list \<Rightarrow> 'a list" where
  "uniq xs = rev (remdups (rev xs))"

definition clip :: "nat \<Rightarrow> string \<Rightarrow> string" where
  "clip n c = take n c @ (if n < length c then ELLIPSIS else [])"

definition sourceSummary :: "FeedbackRow list \<Rightarrow> string \<Rightarrow> json" where
  "sourceSummary items src =
     (let forSource = filter (\<lambda>i. source i = src) items;
          sentiments = map (\<lambda>i. toLowerCase (sentiment i)) forSource;
          pos = length (filter (\<lambda>s. s = ''positive'') sentiments);
          neg = length (filter (\<lambda>s. s = ''negative'') sentiments);
          dominant_sentiment = (if length forSource < 2 * neg then ''negative''
                                else if length forSource < 2 * pos then ''positive'' else ''neutral'')
      in JObj [(''source'', JStr src),
               (''total_items'', JNum (of_nat (length forSource))),
               (''dominant_sentiment'', JStr dominant_sentiment),
               (''key_issues'', JArr (map (\<lambda>i. JStr (clip 80 (comment i))) (take 5 forSource)))])"

text \<open>The three fields of the summary that \<open>summaryFromFeedback\<close> builds.\<close>

definition overallFromFeedback :: "FeedbackRow list \<Rightarrow> json" where
  "overallFromFeedback items =
     JStr (if items = [] then ''No feedback has been recorded yet.''
           else showNat (length items) @ '' feedback item'' @ (if length items \<noteq> 1 then ''s'' else [])
                @ '' from '' @ join '', '' (uniq (map source items)) @ ''.'')"

definition bySourceFromFeedback :: "FeedbackRow list \<Rightarrow> json" where
  "bySourceFromFeedback items = JArr (map (sourceSummary items) (uniq (map source items)))"

definition urgentFromFeedback :: "FeedbackRow list \<Rightarrow> json" where
  "urgentFromFeedback items =
     JArr (map (\<lambda>i. JStr (source i @ '': '' @ clip 60 (comment i))) (take 5 items))"

definition summaryFromFeedback :: "FeedbackRow list \<Rightarrow> json" where
  "summaryFromFeedback items =
     JObj [(''overall_summary'', overallFromFeedback items),
           (''by_source'', bySourceFromFeedback items),
           (''top_urgent_issues'', urgentFromFeedback items)]"

text \<open>\<open>normalizeSummary\<close>: reading a property of \<open>null\<close> throws; on any other value that
  is not an object the property is \<open>undefined\<close>.\<close>

definition nonEmptyString :: "json option \<Rightarrow> bool" where
  "nonEmptyString v = (case v of Some (JStr t) \<Rightarrow> t \<noteq> [] | _ \<Rightarrow> False)"

definition nonEmptyArray :: "json option \<Rightarrow> bool" where
  "nonEmptyArray v = (case v of Some (JArr a) \<Rightarrow> a \<noteq> [] | _ \<Rightarrow> False)"

definition pick :: "bool \<Rightarrow> json option \<Rightarrow> json \<Rightarrow> json" where
  "pick ok v fallback = (case v of Some w \<Rightarrow> if ok then w else fallback | None \<Rightarrow> fallback)"

definition normalizeSummary :: "json \<Rightarrow> FeedbackRow list \<Rightarrow> exn + json" where
  "normalizeSummary parsed feedbackItems =
     (if parsed = JNull then Inl Thrown
      else Inr (JObj
        [(''overall_summary'',
            pick (nonEmptyString (field parsed ''overall_summary'')) (field parsed ''overall_summary'')
              (overallFromFeedback feedbackItems)),
         (''by_source'',
            pick (nonEmptyArray (field parsed ''by_source'')) (field parsed ''by_source'')
              (bySourceFromFeedback feedbackItems)),
         (''top_urgent_issues'',
            pick (nonEmptyArray (field parsed ''top_urgent_issues'')) (field parsed ''top_urgent_issues'')
              (urgentFromFeedback feedbackItems))]))"

definition promptLine :: "FeedbackRow \<Rightarrow> string" where
  "promptLine item = ''['' @ source item @ ''] sentiment='' @ sentiment item @ '' comment='' @ [CHR 0x22]
     @ comment item @ [CHR 0x22] @ '' timestamp='' @ timestamp item"

definition summaryPrompt :: "FeedbackRow list \<Rightarrow> string" where
  "summaryPrompt feedbackItems =
     trim (join [CHR 0x0A]
       [[],
        ''You are helping a product manager understand customer feedback aggregated from multiple channels.'',
        [],
        ''Each line below is a single piece of feedback in the format:'',
        ''[source] sentiment=<positive|neutral|negative> comment='' @ [CHR 0x22] @ ''<user comment>'' @ [CHR 0x22] @ '' timestamp=<ISO8601>'',
        [],
        ''Feedback:'',
        join [CHR 0x0A] (map promptLine feedbackItems),
        [],
        ''Based on this feedback, respond ONLY with minified JSON (no markdown, no extra text) that matches this TypeScript type:'',
        [],
        ''type Summary = {'',
        ''  overall_summary: string;'',
        ''  by_source: {'',
        ''    source: string;'',
        ''    total_items: number;'',
        ''    dominant_sentiment: string;'',
        ''    key_issues: string[];'',
        ''  }[];'',
        ''  top_urgent_issues: string[];'',
        ''};'',
        [],
        ''Return ONLY valid JSON conforming to Summary.'',
        [CHR 0x09, CHR 0x09, CHR 0x09, CHR 0x09]])"

definition errorBody :: "(string \<times> string) list \<Rightarrow> json" where
  "errorBody fs = JObj (map (\<lambda>(k, v). (k, JStr v)) fs)"

text \<open>The handler of \<open>/api/summary\<close>: the response and the module state after it.\<close>

definition summaryRoute :: "JsonParse \<Rightarrow> Env \<Rightarrow> ModuleState \<Rightarrow> Response \<times> ModuleState" where
  "summaryRoute JSON_parse env st =
     (case FEEDBACK_DB env of
        None \<Rightarrow> (Response 500 (errorBody [(''error'', ''Missing D1 binding FEEDBACK_DB'')]), st)
      | Some db \<Rightarrow>
         (case AI env of
            None \<Rightarrow> (Response 500 (errorBody [(''error'', ''Missing AI binding''),
                          (''hint'', ''Configure the ai binding in wrangler.jsonc'')]), st)
          | Some run \<Rightarrow>
             (case db of
                DbThrows message \<Rightarrow>
                  (Response 500 (errorBody [(''error'', ''Failed to generate summary from AI''),
                      (''details'', message)]), st)
              | DbRows feedbackItems \<Rightarrow>
                  if feedbackItems = []
                  then (Response 200 (JObj [(''overall_summary'', JStr ''No feedback has been recorded yet.''),
                                            (''by_source'', JArr []), (''top_urgent_issues'', JArr [])]), st)
                  else (case run (summaryPrompt feedbackItems) of
                          AiThrows message \<Rightarrow>
                            (Response 500 (errorBody [(''error'', ''Failed to generate summary from AI''),
                                (''details'', message)]), st)
                        | AiNotText \<Rightarrow> (Response 200 (summaryFromFeedback feedbackItems), st)
                        | AiText text \<Rightarrow>
                            (case parseAiJson JSON_parse text of
                               None \<Rightarrow> (Response 200 (summaryFromFeedback feedbackItems), st)
                             | Some parsed \<Rightarrow>
                                (case normalizeSummary parsed feedbackItems of
                                   Inl Thrown \<Rightarrow> (Response 200 (summaryFromFeedback feedbackItems), st)
                                 | Inr summary \<Rightarrow> (Response 200 summary, st)))))))"

section \<open>Invariants used in the proofs\<close>

definition goodRec :: "ThemeRec \<Rightarrow> bool" where
  "goodRec r = (enterprise r + selfServe r = total r \<and> negative r \<le> total r \<and> 0 < total r)"

definition goodMap :: "(string \<times> ThemeRec) list \<Rightarrow> bool" where
  "goodMap m = (distinct (map fst m) \<and> (\<forall>k r. map_of m k = Some r \<longrightarrow> goodRec r))"

section \<open>Sample inputs\<close>

definition mkRow :: "string \<Rightarrow> string \<Rightarrow> string \<Rightarrow> FeedbackRow" where
  "mkRow src sent c = \<lparr> row_id = 0, source = src, sentiment = sent, comment = c, timestamp = [] \<rparr>"

definition loginRow :: FeedbackRow where
  "loginRow = mkRow ''email'' ''negative'' ''login fails''"

definition docsRow :: FeedbackRow where
  "docsRow = mkRow ''Discord'' ''positive'' ''docs scattered''"

definition apiRow :: FeedbackRow where
  "apiRow = mkRow ''Discord'' ''positive'' ''api down''"

definition loginAgg :: AggregatedTheme where
  "loginAgg = \<lparr> theme = ''Authentication / Login Issues'', total_mentions = 2, enterprise_mentions = 2,
     self_serve_mentions = 0, percent_negative = 100, yesterday_mentions = 1,
     percent_change_vs_yesterday = 100 \<rparr>"

definition docsAgg :: AggregatedTheme where
  "docsAgg = \<lparr> theme = ''Documentation Confusion'', total_mentions = 1, enterprise_mentions = 0,
     self_serve_mentions = 1, percent_negative = 0, yesterday_mentions = 0,
     percent_change_vs_yesterday = 100 \<rparr>"


definition mailRow :: FeedbackRow where
  "mailRow = mkRow ''email'' ''negative'' ''email bounced''"

definition apiTicket :: FeedbackRow where
  "apiTicket = mkRow ''email'' ''negative'' ''api down''"

definition headlineDay :: "FeedbackRow list" where
  "headlineDay = [loginRow, mailRow, apiTicket, docsRow, loginRow, mailRow, apiTicket, loginRow, mailRow,
     apiTicket]"

definition scoredOf :: "string \<Rightarrow> nat \<Rightarrow> nat \<Rightarrow> int \<Rightarrow> nat \<Rightarrow> RiskLevel \<Rightarrow> Icon \<Rightarrow> ScoredTheme" where
  "scoredOf t e s pn score level ic =
     \<lparr> theme = t, total_mentions = e + s, enterprise_mentions = e, self_serve_mentions = s,
       percent_negative = pn, yesterday_mentions = 0, percent_change_vs_yesterday = 100,
       risk_score = score, risk_level = level, icon = ic \<rparr>"

definition loginScored :: ScoredTheme where
  "loginScored = scoredOf ''Authentication / Login Issues'' 3 0 100 11 Monitor YellowCircle"

definition mailScored :: ScoredTheme where
  "mailScored = scoredOf ''Email Delivery Issues'' 3 0 100 11 Monitor YellowCircle"

definition apiScored :: ScoredTheme where
  "apiScored = scoredOf ''API Timeout Errors'' 3 0 100 11 Monitor YellowCircle"

definition docsScored :: ScoredTheme where
  "docsScored = scoredOf ''Documentation Confusion'' 0 1 0 1 LowImpact GreenCircle"

definition apiLowScored :: ScoredTheme where
  "apiLowScored = scoredOf ''API Timeout Errors'' 0 1 0 1 LowImpact GreenCircle"

definition praiseRow :: FeedbackRow where
  "praiseRow = mkRow ''Discord'' ''negative'' ''great product''"

definition loginPraise :: FeedbackRow where
  "loginPraise = mkRow ''Discord'' ''positive'' ''login is smooth now''"

definition loginBugsAnswer :: json where
  "loginBugsAnswer = JObj [(''issue'', JStr ''Login Bugs''), (''matching_indices'', JArr [])]"

definition sampleOracle :: Ai where
  "sampleOracle prompt = AiText ''{}''"

definition sampleParse :: JsonParse where
  "sampleParse text = Some loginBugsAnswer"

text \<open>Answers of the oracle whose label has a letter above \<open>U+007F\<close>: a sharp s, and a y
  with diaeresis.\<close>

definition uiRow :: FeedbackRow where
  "uiRow = mkRow ''Discord'' ''neutral'' ''ui bug''"

definition sharpSAnswer :: json where
  "sharpSAnswer = JObj [(''issue'', JStr [CHR 0xDF, CHR ''o'']), (''matching_indices'', JArr [JNum 1])]"

definition sharpSParse :: JsonParse where
  "sharpSParse text = Some sharpSAnswer"

definition diaeresisAnswer :: json where
  "diaeresisAnswer = JObj [(''issue'', JStr [CHR 0xFF, CHR ''o'']), (''matching_indices'', JArr [JNum 1])]"

definition diaeresisParse :: JsonParse where
  "diaeresisParse text = Some diaeresisAnswer"

definition summaryA :: json where
  "summaryA = JObj [(''overall_summary'', JStr ''Login is failing.''),
                    (''by_source'', JArr [JStr ''email'']),
                    (''top_urgent_issues'', JArr [JStr ''login''])]"

definition summaryB :: json where
  "summaryB = JObj [(''overall_summary'', JStr ''Login works again.''),
                    (''by_source'', JArr [JStr ''email'']),
                    (''top_urgent_issues'', JArr [JStr ''none''])]"

definition parseAB :: JsonParse where
  "parseAB text = (if text = ''A'' then Some summaryA else if text = ''B'' then Some summaryB else None)"

definition envA :: Env where
  "envA = \<lparr> FEEDBACK_DB = Some (DbRows [loginRow]), AI = Some (\<lambda>prompt. AiText ''A'') \<rparr>"

definition envB :: Env where
  "envB = \<lparr> FEEDBACK_DB = Some (DbRows [loginRow]), AI = Some (\<lambda>prompt. AiText ''B'') \<rparr>"

section \<open>Rounding to binary64\<close>

lemma roundHalfEven_cases: "roundHalfEven q = \<lfloor>q\<rfloor> \<or> roundHalfEven q = \<lfloor>q\<rfloor> + 1"
proof -
  have "\<And>a b c (x::int) y. (if a then x else if b then y else if c then x else y) = x \<or>
          (if a then x else if b then y else if c then x else y) = y"
    by (simp only: split: if_split) blast
  then show ?thesis unfolding roundHalfEven_def Let_def by blast
qed

lemma roundHalfEven_int: "roundHalfEven (of_int n) = n"
  unfolding roundHalfEven_def Let_def by simp

lemma roundHalfEven_le: "q \<le> of_int n \<Longrightarrow> roundHalfEven q \<le> n"
proof -
  assume a: "q \<le> of_int n"
  show ?thesis
  proof (cases "q = of_int n")
    case True
    then show ?thesis by (simp add: roundHalfEven_int)
  next
    case False
    with a have "q < of_int n" by simp
    then have "\<lfloor>q\<rfloor> < n" by (simp add: floor_less_iff)
    then show ?thesis using roundHalfEven_cases[of q] by linarith
  qed
qed

lemma roundHalfEven_ge: "of_int n \<le> q \<Longrightarrow> n \<le> roundHalfEven q"
proof -
  assume a: "of_int n \<le> q"
  then have "n \<le> \<lfloor>q\<rfloor>" by (simp add: le_floor_iff)
  then show ?thesis by (simp add: roundHalfEven_def Let_def)
qed

lemma ilog2_le: "x \<noteq> 0 \<Longrightarrow> 2 powi (ilog2 x) \<le> \<bar>x\<bar>"
proof -
  assume nz: "x \<noteq> 0"
  obtain p q where pq: "quotient_of \<bar>x\<bar> = (p, q)" by (cases "quotient_of \<bar>x\<bar>")
  have q0: "0 < q" using pq quotient_of_denom_pos by blast
  have xe: "\<bar>x\<bar> = of_int p / of_int q" using pq quotient_of_div by blast
  have "0 < \<bar>x\<bar>" using nz by simp
  then have p0: "0 < p" using xe q0 by (simp add: zero_less_divide_iff)
  define k where "k = bitlen p - bitlen q"
  have bp: "2 ^ nat (bitlen p - 1) \<le> p" using bitlen_bounds[OF p0] by simp
  have bq: "q < 2 ^ nat (bitlen q)" using bitlen_bounds[OF q0] by simp
  have bp1: "1 \<le> bitlen p" using p0 by (auto simp: bitlen_alt_def)
  have bq1: "1 \<le> bitlen q" using q0 by (auto simp: bitlen_alt_def)
  have "(2::rat) powi (k - 1) \<le> \<bar>x\<bar>"
  proof -
    have "(2::rat) powi (k - 1) = 2 powi (bitlen p - 1) / 2 powi (bitlen q)"
      by (simp add: k_def power_int_diff)
    also have "\<dots> = 2 ^ nat (bitlen p - 1) / 2 ^ nat (bitlen q)"
      using bp1 bq1 by (simp add: power_int_def)
    also have "\<dots> \<le> of_int p / of_int q"
    proof -
      have 1: "(2::rat) ^ nat (bitlen p - 1) \<le> of_int p"
        using bp by (metis of_int_le_iff of_int_numeral of_int_power)
      have 2: "(of_int q :: rat) \<le> 2 ^ nat (bitlen q)"
        using bq by (metis less_imp_le of_int_le_iff of_int_numeral of_int_power)
      have 3: "(0::rat) < of_int q" using q0 by simp
      have 4: "(0::rat) \<le> of_int p" using p0 by simp
      show ?thesis by (rule frac_le[OF 4 1 3 2])
    qed
    finally show ?thesis using xe by simp
  qed
  then show ?thesis using pq by (auto simp: ilog2_def Let_def k_def)
qed

lemma fl_nonneg: "0 \<le> x \<Longrightarrow> 0 \<le> fl x"
proof -
  assume a: "0 \<le> x"
  have "0 \<le> roundHalfEven (x / 2 powi (ilog2 x - 52))"
    using a by (intro roundHalfEven_ge) simp
  then show ?thesis by (simp add: fl_def Let_def)
qed

lemma fl_le_int:
  assumes "0 < x" "x \<le> of_int c" "x < 2 ^ 53"
  shows "fl x \<le> of_int c"
proof -
  define e where "e = ilog2 x"
  have "2 powi e \<le> x" using ilog2_le[of x] assms(1) by (simp add: e_def)
  then have "(2::rat) powi e < 2 powi 53" using assms(3) by simp
  then have "e < 53" by (intro power_int_le_imp_less_exp[of "2::rat"]) auto
  then have e52: "e \<le> 52" by simp
  define m where "m = nat (52 - e)"
  have ulp: "(2::rat) powi (e - 52) = 1 / 2 ^ m"
    using e52 by (simp add: m_def power_int_def nat_diff_distrib divide_simps)
  have "x / (2 powi (e - 52)) = x * 2 ^ m" by (simp add: ulp)
  also have "\<dots> \<le> of_int c * 2 ^ m" using assms(2) by simp
  also have "\<dots> = of_int (c * 2 ^ m)" by simp
  finally have "roundHalfEven (x / (2 powi (e - 52))) \<le> c * 2 ^ m"
    by (rule roundHalfEven_le)
  then have "(of_int (roundHalfEven (x / (2 powi (e - 52)))) :: rat) \<le> of_int (c * 2 ^ m)"
    by (simp only: of_int_le_iff)
  then have "of_int (roundHalfEven (x / (2 powi (e - 52)))) * (1 / 2 ^ m) \<le> (of_int c :: rat)"
    by (simp add: divide_simps)
  then show ?thesis using assms(1) by (simp add: fl_def Let_def e_def[symmetric] ulp)
qed

lemma Math_round_bounds: "0 \<le> x \<Longrightarrow> x \<le> of_int c \<Longrightarrow> 0 \<le> Math_round x \<and> Math_round x \<le> c"
  unfolding Math_round_def by (simp add: floor_le_iff le_floor_iff) 

lemma fl_zero: "fl 0 = 0"
  by (simp add: fl_def)

lemma fl_range:
  assumes "0 \<le> x" "x \<le> of_int c" "c < 2 ^ 53"
  shows "0 \<le> fl x \<and> fl x \<le> of_int c"
proof (cases "x = 0")
  case True
  then show ?thesis using assms by (simp add: fl_zero)
next
  case False
  then have p: "0 < x" using assms(1) by simp
  have "(of_int c :: rat) < of_int (2 ^ 53)" using assms(3) by (simp only: of_int_less_iff)
  then have "x < 2 ^ 53" using assms(2) by simp
  then show ?thesis using fl_nonneg[OF assms(1)] fl_le_int[OF p assms(2)] by simp
qed

section \<open>Invariants of the theme map\<close>

lemma bump_good:
  "enterprise r + selfServe r = total r \<Longrightarrow> negative r \<le> total r \<Longrightarrow> goodRec (bump rw r)"
  by (simp add: goodRec_def bump_def)

lemma add_good: "goodMap m \<Longrightarrow> goodMap (add rw True m)"
proof -
  assume g: "goodMap m"
  define key where "key = themeKey rw"
  define z where "z = \<lparr>total = 0, enterprise = 0, selfServe = 0, negative = 0\<rparr>"
  define m1 where "m1 = (if map_of m key = None then AList.update key z m else m)"
  have eq: "add rw True m = AList.map_entry key (bump rw) m1"
    by (simp add: add_def Let_def key_def z_def m1_def)
  have d1: "distinct (map fst m1)" using g by (simp add: m1_def goodMap_def distinct_update)
  have v1: "map_of m1 k = Some r \<Longrightarrow> (enterprise r + selfServe r = total r \<and> negative r \<le> total r) \<and> (k \<noteq> key \<longrightarrow> goodRec r)" for k r
    using g by (auto simp: m1_def goodMap_def update_conv' z_def goodRec_def split: if_splits)
  have "goodRec r" if h: "map_of (AList.map_entry key (bump rw) m1) k = Some r" for k r
  proof (cases "k = key")
    case True
    then obtain r0 where "map_of m1 key = Some r0" "r = bump rw r0"
      using h by (auto simp: map_of_map_entry split: option.splits)
    then show ?thesis using v1[of key r0] bump_good by simp
  next
    case False
    then have "map_of m1 k = Some r" using h by (simp add: map_of_map_entry)
    then show ?thesis using v1[of k r] False by simp
  qed
  then show ?thesis unfolding eq goodMap_def using d1 by (simp add: distinct_map_entry)
qed

lemma foldl_add_good: "goodMap m \<Longrightarrow> goodMap (foldl (\<lambda>m r. add r True m) m rows)"
  by (induction rows arbitrary: m) (simp_all add: add_good)

lemma todayThemeMap_good: "goodMap (todayThemeMap rows)"
  unfolding todayThemeMap_def by (rule foldl_add_good) (simp add: goodMap_def)

lemma add_keys: "fst ` set (add rw True m) = insert (themeKey rw) (fst ` set m)"
  by (auto simp: add_def Let_def dom_map_entry dom_update dest: map_of_SomeD
           simp: map_of_eq_None_iff image_iff)

lemma foldl_add_keys:
  "fst ` set (foldl (\<lambda>m r. add r True m) m rows) = fst ` set m \<union> themeKey ` set rows"
  by (induction rows arbitrary: m) (simp_all add: add_keys)

lemma todayThemeMap_keys: "fst ` set (todayThemeMap rows) = themeKey ` set rows"
  unfolding todayThemeMap_def by (simp add: foldl_add_keys)

lemma todayThemeMap_entry:
  "e \<in> set (todayThemeMap rows) \<Longrightarrow> goodRec (snd e)"
  using todayThemeMap_good[of rows] unfolding goodMap_def by (cases e) auto

lemma percentNegative_range:
  assumes "goodRec r"
  shows "0 \<le> percentNegative r \<and> percentNegative r \<le> 100"
proof -
  have t: "0 < total r" and n: "negative r \<le> total r" using assms by (auto simp: goodRec_def)
  define x :: rat where "x = of_nat (negative r) / of_nat (total r)"
  have x0: "0 \<le> x" by (simp add: x_def)
  have x1: "x \<le> of_int 1" using t n by (simp add: x_def)
  have f: "0 \<le> fl x \<and> fl x \<le> of_int 1" by (rule fl_range[OF x0 x1]) simp
  have y0: "0 \<le> fl x * 100" using f by simp
  have y1: "fl x * 100 \<le> of_int 100" using f by simp
  have g: "0 \<le> fl (fl x * 100) \<and> fl (fl x * 100) \<le> of_int 100" by (rule fl_range[OF y0 y1]) simp
  have "0 \<le> Math_round (fl (fl x * 100)) \<and> Math_round (fl (fl x * 100)) \<le> 100"
    using g by (intro Math_round_bounds) auto
  then show ?thesis using t by (simp add: percentNegative_def jsMul_def jsDiv_def x_def)
qed

lemma aggregateThemes_elem:
  "a \<in> set (aggregateThemes today yest) \<Longrightarrow>
   \<exists>e \<in> set (todayThemeMap today). a = aggregateEntry (yesterdayCounts yest) e"
  by (auto simp: aggregateThemes_def)

lemma aggregateThemes_themes:
  "map theme (aggregateThemes today yest) = map fst (todayThemeMap today)"
  by (simp add: aggregateThemes_def aggregateEntry_def Let_def comp_def)

lemma aggregateThemes_distinct: "distinct (map theme (aggregateThemes today yest))"
  using todayThemeMap_good[of today] by (simp add: aggregateThemes_themes goodMap_def)

lemma aggregateThemes_theme_set:
  "theme ` set (aggregateThemes today yest) = themeKey ` set today"
  using todayThemeMap_keys[of today] aggregateThemes_themes[of today yest]
  by (metis image_set)

lemma aggregateThemes_total_pos:
  "a \<in> set (aggregateThemes today yest) \<Longrightarrow> 0 < total_mentions a"
  using todayThemeMap_entry by (auto simp: aggregateThemes_def aggregateEntry_def Let_def goodRec_def)

section \<open>The percent change is a nearest integer\<close>














section \<open>Evaluation of the sample inputs\<close>

lemma loginRow_key: "themeKey loginRow = ''Authentication / Login Issues''"
  unfolding themeKey_def loginRow_def mkRow_def by code_simp

lemma docsRow_key: "themeKey docsRow = ''Documentation Confusion''"
  unfolding themeKey_def docsRow_def mkRow_def by code_simp

lemma apiRow_key: "themeKey apiRow = ''API Timeout Errors''"
  unfolding themeKey_def apiRow_def mkRow_def by code_simp

lemma loginRow_bump:
  "bump loginRow r = r\<lparr>total := total r + 1, enterprise := enterprise r + 1, negative := negative r + 1\<rparr>"
proof -
  have "isEnterprise loginRow"
    unfolding loginRow_def mkRow_def isEnterprise_def ENTERPRISE_SOURCES_def by code_simp
  moreover have "toLowerCase (sentiment loginRow) = ''negative''"
    unfolding loginRow_def mkRow_def by code_simp
  ultimately show ?thesis by (simp add: bump_def)
qed

lemma docsRow_bump: "bump docsRow r = r\<lparr>total := total r + 1, selfServe := selfServe r + 1\<rparr>"
proof -
  have "\<not> isEnterprise docsRow"
    unfolding docsRow_def mkRow_def isEnterprise_def ENTERPRISE_SOURCES_def by code_simp
  moreover have "toLowerCase (sentiment docsRow) \<noteq> ''negative''"
    unfolding docsRow_def mkRow_def by code_simp
  ultimately show ?thesis by (simp add: bump_def)
qed

lemma apiRow_bump: "bump apiRow r = r\<lparr>total := total r + 1, selfServe := selfServe r + 1\<rparr>"
proof -
  have "\<not> isEnterprise apiRow"
    unfolding apiRow_def mkRow_def isEnterprise_def ENTERPRISE_SOURCES_def by code_simp
  moreover have "toLowerCase (sentiment apiRow) \<noteq> ''negative''"
    unfolding apiRow_def mkRow_def by code_simp
  ultimately show ?thesis by (simp add: bump_def)
qed

lemma percentNegative_all: "percentNegative \<lparr>total = 2, enterprise = 2, selfServe = 0, negative = 2\<rparr> = 100"
  by code_simp

lemma percentNegative_none:
  "percentNegative \<lparr>total = Suc 0, enterprise = 0, selfServe = Suc 0, negative = 0\<rparr> = 0"
  by code_simp

lemma percentChange_2_1: "percentChange 2 (Suc 0) = 100"
  by code_simp

lemma percentChange_1_0: "percentChange (Suc 0) 0 = 100"
  by code_simp

text \<open>The rounding of the quotient and of the product is visible: from 200 mentions to 229 the
  exact change is 14.5 percent, the binary64 product lies just below it, and the code returns
  14.\<close>

lemma percentChange_229_200: "percentChange 229 200 = 14"
  by code_simp

lemma aggregateThemes_sample:
  "aggregateThemes [loginRow, docsRow, loginRow] [loginRow] = [loginAgg, docsAgg]"
proof -
  have m: "todayThemeMap [loginRow, docsRow, loginRow] =
     [(''Authentication / Login Issues'', \<lparr>total = 2, enterprise = 2, selfServe = 0, negative = 2\<rparr>),
      (''Documentation Confusion'', \<lparr>total = 1, enterprise = 0, selfServe = 1, negative = 0\<rparr>)]"
    by (simp add: todayThemeMap_def add_def loginRow_key docsRow_key loginRow_bump docsRow_bump)
  have y: "yesterdayCounts [loginRow] = [(''Authentication / Login Issues'', 1)]"
    by (simp add: yesterdayCounts_def countYesterday_def loginRow_key)
  show ?thesis
    by (simp add: aggregateThemes_def m y aggregateEntry_def percentNegative_all percentNegative_none
          percentChange_2_1 percentChange_1_0 loginAgg_def docsAgg_def)
qed

section \<open>Aggregates\<close>

text \<open>
  C2. For every pair of record lists and every aggregate that \<open>aggregateThemes\<close> returns,
  the enterprise and the self-serve mentions add up to the total mentions, and the
  percentage of negative mentions lies between 0 and 100.
\<close>

theorem aggregateThemes_split_and_percent:
  assumes "a \<in> set (aggregateThemes todayItems yesterdayItems)"
  shows "enterprise_mentions a + self_serve_mentions a = total_mentions a \<and>
         0 \<le> percent_negative a \<and> percent_negative a \<le> 100"
proof -
  obtain e where e: "e \<in> set (todayThemeMap todayItems)"
      and a: "a = aggregateEntry (yesterdayCounts yesterdayItems) e"
    using assms aggregateThemes_elem by blast
  have g: "goodRec (snd e)" using e by (rule todayThemeMap_entry)
  show ?thesis using g percentNegative_range[OF g]
    by (simp add: a aggregateEntry_def Let_def goodRec_def)
qed

theorem aggregateThemes_split_and_percent_witness:
  "loginAgg \<in> set (aggregateThemes [loginRow, docsRow, loginRow] [loginRow]) \<and>
   enterprise_mentions loginAgg + self_serve_mentions loginAgg = total_mentions loginAgg \<and>
   0 \<le> percent_negative loginAgg \<and> percent_negative loginAgg \<le> 100"
proof -
  have m: "loginAgg \<in> set (aggregateThemes [loginRow, docsRow, loginRow] [loginRow])"
    by (simp add: aggregateThemes_sample)
  from aggregateThemes_split_and_percent [OF m] m show ?thesis by blast
qed









lemma spec_63_40: "specPercentChange 63 40 = 58"
  by (simp add: specPercentChange_def exactChange_def round_def)







text \<open>
  C7. The claim: the output holds one aggregate per theme seen today or yesterday, so a
  theme seen only yesterday has an aggregate with zero mentions today. The code: the themes
  of the output are those of today's records. \<open>add\<close> takes the flag \<open>isToday\<close> and
  registers the key before it returns on a record that is not of today, but it is only
  ever called on today's records; here, yesterday's only record has the theme
  \<open>Authentication / Login Issues\<close> and the output is empty.
\<close>

theorem aggregateThemes_drops_yesterday_only_theme:
  "themeKey loginRow = ''Authentication / Login Issues'' \<and> aggregateThemes [] [loginRow] = []"
  by (simp add: loginRow_key aggregateThemes_def todayThemeMap_def)

section \<open>Headline selection\<close>

lemma insertBy_insort_key:
  "insertBy (\<lambda>a b. k b - k a) x ys = insort_key (\<lambda>y. - k y) x (ys :: 'a list)" for k :: "'a \<Rightarrow> int"
  by (induction ys) auto

lemma sortBy_sort_key:
  "sortBy (\<lambda>a b. k b - k a) xs = sort_key (\<lambda>y. - k y) xs" for k :: "'a \<Rightarrow> int"
  by (induction xs) (simp_all add: sortBy_def insertBy_insort_key)

lemma byRiskDesc_sort_key: "byRiskDesc xs = sort_key (\<lambda>x. - int (risk_score x)) xs"
  unfolding byRiskDesc_def riskDesc_def by (rule sortBy_sort_key)

lemma set_byRiskDesc: "set (byRiskDesc xs) = set xs"
  by (simp add: byRiskDesc_sort_key)

lemma length_byRiskDesc: "length (byRiskDesc xs) = length xs"
  by (simp add: byRiskDesc_sort_key)

lemma distinct_byRiskDesc: "distinct (byRiskDesc xs) = distinct xs"
  by (simp add: byRiskDesc_sort_key)

lemma sorted_byRiskDesc: "sorted_wrt (\<lambda>a b. risk_score b \<le> risk_score a) (byRiskDesc xs)"
proof -
  have "sorted (map (\<lambda>x. - int (risk_score x)) (byRiskDesc xs))"
    by (simp add: byRiskDesc_sort_key)
  then show ?thesis by (simp add: sorted_map sorted_wrt_iff_nth_less)
qed

lemma stable_byRiskDesc:
  "filter (\<lambda>x. risk_score x = k) (byRiskDesc xs) = filter (\<lambda>x. risk_score x = k) xs"
proof -
  have "filter (\<lambda>x. - int (risk_score x) = - int k) (sort_key (\<lambda>x. - int (risk_score x)) xs)
        = filter (\<lambda>x. - int (risk_score x) = - int k) xs"
    by (rule sort_key_stable)
  then show ?thesis by (simp add: byRiskDesc_sort_key)
qed

lemma distinct_themes_byRiskDesc:
  "distinct (map theme xs) \<Longrightarrow> distinct (map theme (byRiskDesc xs))"
  by (simp add: distinct_map distinct_byRiskDesc set_byRiskDesc)

lemma set_candidate3: "set (candidate3 xs) \<subseteq> set xs"
  unfolding candidate3_def using set_take_subset set_byRiskDesc by fastforce

lemma length_candidate3: "length (candidate3 xs) \<le> 3"
  by (simp add: candidate3_def)

lemma distinct_themes_candidate3:
  "distinct (map theme xs) \<Longrightarrow> distinct (map theme (candidate3 xs))"
  unfolding candidate3_def by (simp add: take_map[symmetric] distinct_themes_byRiskDesc distinct_take)

lemma candidate3_all: "length xs < 3 \<Longrightarrow> set (candidate3 xs) = set xs"
  by (simp add: candidate3_def length_byRiskDesc set_byRiskDesc)

text \<open>The head of the sorted low-impact themes.\<close>

lemma bestLow_None: "bestLow xs = None \<longleftrightarrow> (\<forall>x\<in>set xs. risk_level x \<noteq> LowImpact)"
proof -
  let ?l = "sortBy riskDesc (filter (\<lambda>x. risk_level x = LowImpact) xs)"
  have s: "set ?l = {x \<in> set xs. risk_level x = LowImpact}"
    using set_byRiskDesc[of "filter (\<lambda>x. risk_level x = LowImpact) xs"] by (simp add: byRiskDesc_def)
  have "bestLow xs = None \<longleftrightarrow> ?l = []" by (simp add: bestLow_def split: list.splits)
  also have "\<dots> \<longleftrightarrow> set ?l = {}" by simp
  finally show ?thesis using s by auto
qed

lemma bestLow_Some:
  assumes "bestLow xs = Some b"
  shows "b \<in> set xs \<and> risk_level b = LowImpact \<and>
         (\<forall>x\<in>set xs. risk_level x = LowImpact \<longrightarrow> risk_score x \<le> risk_score b)"
proof -
  let ?f = "filter (\<lambda>x. risk_level x = LowImpact) xs"
  obtain rest where l: "byRiskDesc ?f = b # rest"
    using assms by (auto simp: bestLow_def byRiskDesc_def split: list.splits)
  have s: "set (b # rest) = {x \<in> set xs. risk_level x = LowImpact}"
    using set_byRiskDesc[of ?f] l by simp
  have "sorted_wrt (\<lambda>a b. risk_score b \<le> risk_score a) (b # rest)"
    using sorted_byRiskDesc[of ?f] l by simp
  then have m: "\<forall>x\<in>set (b # rest). risk_score x \<le> risk_score b" by auto
  show ?thesis using s m by auto
qed

lemma length_top3: "length (top3 xs) \<le> 3"
  by (auto simp: top3_def length_candidate3 split: option.splits)

lemma set_top3: "set (top3 xs) \<subseteq> set xs"
proof (cases "bestLow xs")
  case None
  then show ?thesis using set_candidate3 by (simp add: top3_def)
next
  case (Some b)
  have b: "b \<in> set xs" using bestLow_Some[OF Some] by simp
  have "candidate3 xs ! 0 \<in> set xs \<and> candidate3 xs ! 1 \<in> set xs" if l: "3 \<le> length (candidate3 xs)"
  proof -
    have "0 < length (candidate3 xs)" "1 < length (candidate3 xs)" using l by linarith+
    then have "candidate3 xs ! 0 \<in> set (candidate3 xs)" "candidate3 xs ! 1 \<in> set (candidate3 xs)"
      by (simp_all only: nth_mem)
    then show ?thesis using set_candidate3[of xs] by blast
  qed
  then show ?thesis using Some b set_candidate3[of xs] by (auto simp: top3_def)
qed

lemma top3_has_low:
  assumes "\<exists>x\<in>set xs. risk_level x = LowImpact"
  shows "\<exists>y\<in>set (top3 xs). risk_level y = LowImpact"
proof -
  obtain b where b: "bestLow xs = Some b" using assms bestLow_None[of xs] by (cases "bestLow xs") auto
  have lb: "risk_level b = LowImpact" using bestLow_Some[OF b] by simp
  show ?thesis
  proof (cases "hasLowInTop3 xs")
    case True
    then show ?thesis using b by (auto simp: top3_def hasLowInTop3_def list_ex_iff)
  next
    case False
    have "3 \<le> length (candidate3 xs)"
    proof (rule ccontr)
      assume "\<not> 3 \<le> length (candidate3 xs)"
      then have "length xs < 3" by (simp add: candidate3_def length_byRiskDesc)
      then have "set (candidate3 xs) = set xs" by (rule candidate3_all)
      then show False using assms False by (auto simp: hasLowInTop3_def list_ex_iff)
    qed
    then show ?thesis using b lb False by (simp add: top3_def)
  qed
qed

lemma top3_replaced:
  assumes "\<forall>x\<in>set (take 3 (byRiskDesc xs)). risk_level x \<noteq> LowImpact"
      and "3 \<le> length xs" and "bestLow xs = Some b"
  shows "top3 xs = [byRiskDesc xs ! 0, byRiskDesc xs ! 1, b]"
proof -
  have "\<not> hasLowInTop3 xs" using assms(1) by (auto simp: hasLowInTop3_def candidate3_def list_ex_iff)
  moreover have "3 \<le> length (candidate3 xs)" using assms(2) by (simp add: candidate3_def length_byRiskDesc)
  ultimately show ?thesis using assms(3) by (simp add: top3_def candidate3_def)
qed

lemma distinct_themes_top3:
  assumes "distinct (map theme xs)"
  shows "distinct (map theme (top3 xs))"
proof (cases "bestLow xs")
  case None
  then show ?thesis using distinct_themes_candidate3[OF assms] by (simp add: top3_def)
next
  case (Some b)
  show ?thesis
  proof (cases "\<not> hasLowInTop3 xs \<and> 3 \<le> length (candidate3 xs)")
    case False
    then show ?thesis using Some distinct_themes_candidate3[OF assms] by (auto simp: top3_def)
  next
    case True
    let ?c = "candidate3 xs"
    have len: "3 \<le> length ?c" using True by simp
    have "0 < length ?c" "1 < length ?c" using len by linarith+
    then have c0: "?c ! 0 \<in> set ?c" and c1: "?c ! 1 \<in> set ?c" by (simp_all only: nth_mem)
    have d: "distinct (map theme ?c)" by (rule distinct_themes_candidate3[OF assms])
    have l0: "0 < length ?c" and l1: "1 < length ?c" using len by linarith+
    have "map theme ?c ! 0 \<noteq> map theme ?c ! 1"
      using d l0 l1 nth_eq_iff_index_eq[of "map theme ?c" 0 1] by simp
    then have t01: "theme (?c ! 0) \<noteq> theme (?c ! 1)" using l0 l1 by simp
    have inj: "inj_on theme (set xs)" using assms by (simp add: distinct_map)
    have bl: "b \<in> set xs" "risk_level b = LowImpact" using bestLow_Some[OF Some] by auto
    have n0: "risk_level (?c ! 0) \<noteq> LowImpact" and n1: "risk_level (?c ! 1) \<noteq> LowImpact"
      using True c0 c1 by (auto simp: hasLowInTop3_def list_ex_iff)
    have x0: "?c ! 0 \<in> set xs" and x1: "?c ! 1 \<in> set xs" using c0 c1 set_candidate3[of xs] by auto
    have "theme (?c ! 0) \<noteq> theme b" using inj x0 bl n0 by (auto dest: inj_onD)
    moreover have "theme (?c ! 1) \<noteq> theme b" using inj x1 bl n1 by (auto dest: inj_onD)
    ultimately show ?thesis using True Some t01 by (simp add: top3_def)
  qed
qed

lemma themes_aggregatedWithRisk: "map theme (aggregatedWithRisk as) = map theme as"
  by (simp add: aggregatedWithRisk_def withRisk_def Let_def comp_def)

lemma distinct_scored:
  "distinct (map theme (aggregatedWithRisk (aggregateThemes todayItems yesterdayItems)))"
  by (simp add: themes_aggregatedWithRisk aggregateThemes_distinct)

section \<open>Evaluation of the headline samples\<close>

lemma mailRow_key: "themeKey mailRow = ''Email Delivery Issues''"
  unfolding themeKey_def mailRow_def mkRow_def by code_simp

lemma apiTicket_key: "themeKey apiTicket = ''API Timeout Errors''"
  unfolding themeKey_def apiTicket_def mkRow_def by code_simp

lemma mailRow_bump:
  "bump mailRow r = r\<lparr>total := total r + 1, enterprise := enterprise r + 1, negative := negative r + 1\<rparr>"
proof -
  have "bump mailRow r = bump loginRow r"
    by (simp add: bump_def isEnterprise_def mailRow_def loginRow_def mkRow_def)
  then show ?thesis by (simp add: loginRow_bump)
qed

lemma apiTicket_bump:
  "bump apiTicket r = r\<lparr>total := total r + 1, enterprise := enterprise r + 1, negative := negative r + 1\<rparr>"
proof -
  have "bump apiTicket r = bump loginRow r"
    by (simp add: bump_def isEnterprise_def apiTicket_def loginRow_def mkRow_def)
  then show ?thesis by (simp add: loginRow_bump)
qed

lemma fl_one: "fl 1 = 1"
  by code_simp

lemma fl_hundred: "fl 100 = 100"
  by code_simp

lemma Math_round_zero: "Math_round 0 = 0"
  by code_simp

lemma Math_round_hundred: "Math_round 100 = 100"
  by code_simp

lemma percentNegative_all_negative:
  "0 < total r \<Longrightarrow> negative r = total r \<Longrightarrow> percentNegative r = 100"
  by (simp add: percentNegative_def jsMul_def jsDiv_def fl_one fl_hundred Math_round_hundred)

lemma percentNegative_no_negative: "negative r = 0 \<Longrightarrow> percentNegative r = 0"
  by (simp add: percentNegative_def jsMul_def jsDiv_def fl_zero Math_round_zero)

lemma percentChange_new: "0 < t \<Longrightarrow> percentChange t 0 = 100"
  by (simp add: percentChange_def)

lemma headlineDay_map:
  "todayThemeMap headlineDay =
     [(''Authentication / Login Issues'', \<lparr>total = 3, enterprise = 3, selfServe = 0, negative = 3\<rparr>),
      (''Email Delivery Issues'', \<lparr>total = 3, enterprise = 3, selfServe = 0, negative = 3\<rparr>),
      (''API Timeout Errors'', \<lparr>total = 3, enterprise = 3, selfServe = 0, negative = 3\<rparr>),
      (''Documentation Confusion'', \<lparr>total = 1, enterprise = 0, selfServe = 1, negative = 0\<rparr>)]"
  by (simp add: todayThemeMap_def headlineDay_def add_def loginRow_key docsRow_key mailRow_key apiTicket_key
        loginRow_bump docsRow_bump mailRow_bump apiTicket_bump)

lemma headlineDay_scored:
  "aggregatedWithRisk (aggregateThemes headlineDay []) = [loginScored, mailScored, apiScored, docsScored]"
  by (simp add: aggregatedWithRisk_def aggregateThemes_def headlineDay_map yesterdayCounts_def
        aggregateEntry_def percentNegative_all_negative percentNegative_no_negative percentChange_new
        withRisk_def computeRiskScore_def riskIcon_def
        loginScored_def mailScored_def apiScored_def docsScored_def scoredOf_def)

lemma headlineDay_sorted:
  "byRiskDesc [loginScored, mailScored, apiScored, docsScored] = [loginScored, mailScored, apiScored, docsScored]"
  by (simp add: byRiskDesc_def sortBy_def riskDesc_def loginScored_def mailScored_def apiScored_def
        docsScored_def scoredOf_def)

lemma headlineDay_top3:
  "top3 [loginScored, mailScored, apiScored, docsScored] = [loginScored, mailScored, docsScored]"
proof -
  have b: "bestLow [loginScored, mailScored, apiScored, docsScored] = Some docsScored"
    by (simp add: bestLow_def sortBy_def loginScored_def mailScored_def apiScored_def
        docsScored_def scoredOf_def)
  have h: "\<not> hasLowInTop3 [loginScored, mailScored, apiScored, docsScored]"
    by (simp add: hasLowInTop3_def candidate3_def headlineDay_sorted)
       (simp add: loginScored_def mailScored_def apiScored_def scoredOf_def)
  show ?thesis by (simp add: top3_def b h candidate3_def headlineDay_sorted)
qed

lemma tiedDay_scored:
  "aggregatedWithRisk (aggregateThemes [docsRow, apiRow] []) = [docsScored, apiLowScored]"
proof -
  have m: "todayThemeMap [docsRow, apiRow] =
     [(''Documentation Confusion'', \<lparr>total = 1, enterprise = 0, selfServe = 1, negative = 0\<rparr>),
      (''API Timeout Errors'', \<lparr>total = 1, enterprise = 0, selfServe = 1, negative = 0\<rparr>)]"
    by (simp add: todayThemeMap_def add_def docsRow_key apiRow_key docsRow_bump apiRow_bump)
  show ?thesis
    by (simp add: aggregatedWithRisk_def aggregateThemes_def m yesterdayCounts_def
        aggregateEntry_def percentNegative_no_negative percentChange_new
        withRisk_def computeRiskScore_def riskIcon_def
        docsScored_def apiLowScored_def scoredOf_def)
qed

lemma tiedDay_sorted: "byRiskDesc [docsScored, apiLowScored] = [docsScored, apiLowScored]"
  by (simp add: byRiskDesc_def sortBy_def riskDesc_def docsScored_def apiLowScored_def scoredOf_def)

lemma api_before_docs: "''API Timeout Errors'' < ''Documentation Confusion''"
  by code_simp

text \<open>
  C1. For the scored themes of any two record lists, the headline selection returns at
  most three entries with pairwise distinct theme labels; when some scored theme is of the
  low-impact tier with a positive score, an entry of the headline is of the low-impact tier;
  and when none of the three best-scored candidates is of the low-impact tier, there are at
  least three themes and a low-impact theme exists, the headline is the first two candidates
  followed by a low-impact theme of the highest score among the low-impact themes.
\<close>

theorem top3_headline:
  "length (top3 (scoredThemes todayItems yesterdayItems)) \<le> 3 \<and>
   distinct (map theme (top3 (scoredThemes todayItems yesterdayItems))) \<and>
   ((\<exists>x\<in>set (scoredThemes todayItems yesterdayItems). risk_level x = LowImpact \<and> 0 < risk_score x) \<longrightarrow>
    (\<exists>y\<in>set (top3 (scoredThemes todayItems yesterdayItems)). risk_level y = LowImpact)) \<and>
   ((\<forall>x\<in>set (take 3 (byRiskDesc (scoredThemes todayItems yesterdayItems))). risk_level x \<noteq> LowImpact) \<and>
    3 \<le> length (scoredThemes todayItems yesterdayItems) \<and>
    (\<exists>x\<in>set (scoredThemes todayItems yesterdayItems). risk_level x = LowImpact) \<longrightarrow>
    (\<exists>low\<in>set (scoredThemes todayItems yesterdayItems).
       risk_level low = LowImpact \<and>
       (\<forall>x\<in>set (scoredThemes todayItems yesterdayItems).
          risk_level x = LowImpact \<longrightarrow> risk_score x \<le> risk_score low) \<and>
       top3 (scoredThemes todayItems yesterdayItems) =
         [byRiskDesc (scoredThemes todayItems yesterdayItems) ! 0,
          byRiskDesc (scoredThemes todayItems yesterdayItems) ! 1, low]))"
proof -
  define S where "S = scoredThemes todayItems yesterdayItems"
  have d: "distinct (map theme S)" unfolding S_def scoredThemes_def by (rule distinct_scored)
  have 1: "length (top3 S) \<le> 3" by (rule length_top3)
  have 2: "distinct (map theme (top3 S))" by (rule distinct_themes_top3[OF d])
  have 3: "(\<exists>x\<in>set S. risk_level x = LowImpact \<and> 0 < risk_score x) \<longrightarrow>
           (\<exists>y\<in>set (top3 S). risk_level y = LowImpact)"
    using top3_has_low[of S] by blast
  have 4: "(\<forall>x\<in>set (take 3 (byRiskDesc S)). risk_level x \<noteq> LowImpact) \<and> 3 \<le> length S \<and>
           (\<exists>x\<in>set S. risk_level x = LowImpact) \<longrightarrow>
           (\<exists>low\<in>set S. risk_level low = LowImpact \<and>
              (\<forall>x\<in>set S. risk_level x = LowImpact \<longrightarrow> risk_score x \<le> risk_score low) \<and>
              top3 S = [byRiskDesc S ! 0, byRiskDesc S ! 1, low])"
  proof (intro impI)
    assume h: "(\<forall>x\<in>set (take 3 (byRiskDesc S)). risk_level x \<noteq> LowImpact) \<and> 3 \<le> length S \<and>
               (\<exists>x\<in>set S. risk_level x = LowImpact)"
    then obtain b where b: "bestLow S = Some b" using bestLow_None[of S] by (cases "bestLow S") auto
    have "top3 S = [byRiskDesc S ! 0, byRiskDesc S ! 1, b]"
      using h b by (intro top3_replaced) auto
    then show "\<exists>low\<in>set S. risk_level low = LowImpact \<and>
              (\<forall>x\<in>set S. risk_level x = LowImpact \<longrightarrow> risk_score x \<le> risk_score low) \<and>
              top3 S = [byRiskDesc S ! 0, byRiskDesc S ! 1, low]"
      using bestLow_Some[OF b] by blast
  qed
  show ?thesis using 1 2 3 4 unfolding S_def by blast
qed

theorem top3_headline_witness:
  "(\<exists>x\<in>set (scoredThemes headlineDay []). risk_level x = LowImpact \<and> 0 < risk_score x) \<and>
   map risk_level (take 3 (byRiskDesc (scoredThemes headlineDay []))) = [Monitor, Monitor, Monitor] \<and>
   3 \<le> length (scoredThemes headlineDay []) \<and>
   top3 (scoredThemes headlineDay []) = [loginScored, mailScored, docsScored] \<and>
   length (top3 (scoredThemes headlineDay [])) \<le> 3 \<and>
   distinct (map theme (top3 (scoredThemes headlineDay []))) \<and>
   (\<exists>y\<in>set (top3 (scoredThemes headlineDay [])). risk_level y = LowImpact) \<and>
   (\<exists>low\<in>set (scoredThemes headlineDay []).
       risk_level low = LowImpact \<and>
       top3 (scoredThemes headlineDay []) =
         [byRiskDesc (scoredThemes headlineDay []) ! 0, byRiskDesc (scoredThemes headlineDay []) ! 1, low])"
proof -
  have s: "scoredThemes headlineDay [] = [loginScored, mailScored, apiScored, docsScored]"
    by (simp add: scoredThemes_def headlineDay_scored)
  have a: "\<exists>x\<in>set (scoredThemes headlineDay []). risk_level x = LowImpact \<and> 0 < risk_score x"
    by (simp add: s docsScored_def scoredOf_def)
  have b: "\<forall>x\<in>set (take 3 (byRiskDesc (scoredThemes headlineDay []))). risk_level x \<noteq> LowImpact"
    by (simp add: s headlineDay_sorted) (simp add: loginScored_def mailScored_def apiScored_def scoredOf_def)
  have b': "map risk_level (take 3 (byRiskDesc (scoredThemes headlineDay []))) = [Monitor, Monitor, Monitor]"
    by (simp add: s headlineDay_sorted) (simp add: loginScored_def mailScored_def apiScored_def scoredOf_def)
  have c: "3 \<le> length (scoredThemes headlineDay [])" by (simp add: s)
  have t: "top3 (scoredThemes headlineDay []) = [loginScored, mailScored, docsScored]"
    by (simp add: s headlineDay_top3)
  from top3_headline [of headlineDay "[]"] a b b' c t show ?thesis by blast
qed

section \<open>The order of the headline candidates\<close>

text \<open>The keys of the theme map, and so the aggregates and the scored themes, stand in the
  order in which the themes are first seen among today's records.\<close>

lemma map_entry_keys: "map fst (AList.map_entry k f m) = map fst m"
  by (induction m) auto

lemma add_key_list:
  "map fst (add rw True m) =
     (if themeKey rw \<in> fst ` set m then map fst m else map fst m @ [themeKey rw])"
  by (simp add: add_def Let_def map_entry_keys update_keys map_of_eq_None_iff)

lemma foldl_add_key_list:
  "map fst (foldl (\<lambda>m r. add r True m) m rows) =
     map fst m @ filter (\<lambda>k. k \<notin> fst ` set m) (firstSeen (map themeKey rows))"
proof (induction rows arbitrary: m)
  case Nil
  then show ?case by simp
next
  case (Cons r rows)
  have s: "fst ` set (add r True m) = insert (themeKey r) (fst ` set m)" by (rule add_keys)
  show ?case
  proof (cases "themeKey r \<in> fst ` set m")
    case True
    have "filter (\<lambda>k. k \<notin> fst ` set m) (filter (\<lambda>y. y \<noteq> themeKey r) xs) =
          filter (\<lambda>k. k \<notin> fst ` set m) xs" for xs
      using True by (induction xs) auto
    then show ?thesis using True by (simp add: Cons.IH s add_key_list insert_absorb)
  next
    case False
    have "filter (\<lambda>k. k \<noteq> themeKey r \<and> k \<notin> fst ` set m) xs =
          filter (\<lambda>k. k \<notin> fst ` set m) (filter (\<lambda>y. y \<noteq> themeKey r) xs)" for xs
      by (induction xs) auto
    then show ?thesis using False by (simp add: Cons.IH s add_key_list)
  qed
qed

lemma todayThemeMap_key_list: "map fst (todayThemeMap rows) = firstSeen (map themeKey rows)"
  by (simp add: todayThemeMap_def foldl_add_key_list)

lemma scoredThemes_order:
  "map theme (scoredThemes todayItems yesterdayItems) = firstSeen (map themeKey todayItems)"
  by (simp add: scoredThemes_def themes_aggregatedWithRisk aggregateThemes_themes todayThemeMap_key_list)

lemma map_filter_inj:
  "inj_on f (set xs) \<Longrightarrow>
   map f (filter P xs) = filter (\<lambda>y. y \<in> f ` {x \<in> set xs. P x}) (map f xs)"
proof (induction xs)
  case Nil
  then show ?case by simp
next
  case (Cons a xs)
  have i: "inj_on f (set xs)" using Cons.prems by (simp add: inj_on_def)
  have e: "filter (\<lambda>y. y \<in> f ` {x \<in> set (a # xs). P x}) (map f xs) =
           filter (\<lambda>y. y \<in> f ` {x \<in> set xs. P x}) (map f xs)"
  proof (rule filter_cong[OF refl])
    fix y assume "y \<in> set (map f xs)"
    then obtain x where x: "x \<in> set xs" "y = f x" by auto
    show "(y \<in> f ` {x \<in> set (a # xs). P x}) = (y \<in> f ` {x \<in> set xs. P x})"
    proof
      assume "y \<in> f ` {x \<in> set (a # xs). P x}"
      then obtain z where z: "z \<in> set (a # xs)" "P z" "y = f z" by auto
      then have "z = x" using Cons.prems x by (auto simp: inj_on_def)
      then show "y \<in> f ` {x \<in> set xs. P x}" using x z by auto
    next
      assume "y \<in> f ` {x \<in> set xs. P x}"
      then show "y \<in> f ` {x \<in> set (a # xs). P x}" by auto
    qed
  qed
  show ?case
  proof (cases "P a")
    case True
    then have "f a \<in> f ` {x \<in> set (a # xs). P x}" by auto
    then show ?thesis using True Cons.IH[OF i] e by simp
  next
    case False
    have "f a \<notin> f ` {x \<in> set (a # xs). P x}"
    proof
      assume "f a \<in> f ` {x \<in> set (a # xs). P x}"
      then obtain z where z: "z \<in> set (a # xs)" "P z" "f a = f z" by auto
      then have "z = a" using Cons.prems by (auto simp: inj_on_def)
      then show False using z False by simp
    qed
    then show ?thesis using False Cons.IH[OF i] e by simp
  qed
qed

lemma tie_order:
  "map theme (filter (\<lambda>x. risk_score x = k) (byRiskDesc (scoredThemes todayItems yesterdayItems))) =
   filter (\<lambda>t. t \<in> theme ` {x \<in> set (scoredThemes todayItems yesterdayItems). risk_score x = k})
     (firstSeen (map themeKey todayItems))"
proof -
  have d: "distinct (map theme (scoredThemes todayItems yesterdayItems))"
    by (simp add: scoredThemes_def themes_aggregatedWithRisk aggregateThemes_distinct)
  then have i: "inj_on theme (set (scoredThemes todayItems yesterdayItems))"
    by (simp add: distinct_map)
  show ?thesis
    by (simp only: stable_byRiskDesc map_filter_inj[OF i] scoredThemes_order)
qed

text \<open>
  C8, as amended. The candidates are sorted by risk score, highest first, and scored
  themes with equal risk scores keep the order they had in the input (the sort is stable and
  its comparator reads nothing but the risk score). The input of the headline is the list
  of scored themes of the day, which stands in the order in which the themes were first
  seen among today's records; so the themes of any one risk score appear in the candidate
  ordering in the order in which they were first seen among today's records.
\<close>

theorem byRiskDesc_descending_stable:
  "sorted_wrt (\<lambda>a b. risk_score b \<le> risk_score a) (byRiskDesc scored) \<and>
   (\<forall>k. filter (\<lambda>x. risk_score x = k) (byRiskDesc scored) = filter (\<lambda>x. risk_score x = k) scored) \<and>
   map theme (scoredThemes todayItems yesterdayItems) = firstSeen (map themeKey todayItems) \<and>
   (\<forall>k. map theme (filter (\<lambda>x. risk_score x = k)
                        (byRiskDesc (scoredThemes todayItems yesterdayItems))) =
        filter (\<lambda>t. t \<in> theme ` {x \<in> set (scoredThemes todayItems yesterdayItems). risk_score x = k})
          (firstSeen (map themeKey todayItems)))"
  using sorted_byRiskDesc stable_byRiskDesc scoredThemes_order tie_order by blast

text \<open>
  C8 as stated fails: two themes with the risk score 1 stay in their input order,
  \<open>Documentation Confusion\<close> before \<open>API Timeout Errors\<close>, against the lexical order of the
  labels.
\<close>

theorem byRiskDesc_tie_not_lexical:
  "map theme (byRiskDesc (scoredThemes [docsRow, apiRow] [])) =
     [''Documentation Confusion'', ''API Timeout Errors''] \<and>
   map risk_score (byRiskDesc (scoredThemes [docsRow, apiRow] [])) = [1, 1] \<and>
   ''API Timeout Errors'' < ''Documentation Confusion''"
  by (simp add: scoredThemes_def tiedDay_scored tiedDay_sorted api_before_docs)
     (simp add: docsScored_def apiLowScored_def scoredOf_def)

section \<open>KPI buckets\<close>

lemma pushRow_keys: "fst ` set (pushRow key r m) = insert key (fst ` set m)"
  by (auto simp: pushRow_def dom_map_entry dom_update map_of_eq_None_iff image_iff)

lemma groupFallback_keys:
  "fst ` set (groupFallback ex m r) =
     (if getThemeForCommentBackend (comment r) = ''Other'' \<or> getThemeForCommentBackend (comment r) \<in> ex
      then fst ` set m else insert (getThemeForCommentBackend (comment r)) (fst ` set m))"
  by (simp add: groupFallback_def Let_def pushRow_keys)

lemma foldl_groupFallback_keys:
  "fst ` set (foldl (groupFallback ex) m items) =
     fst ` set m \<union> {t. \<exists>r\<in>set items. t = getThemeForCommentBackend (comment r) \<and> t \<noteq> ''Other'' \<and> t \<notin> ex}"
proof (induction items arbitrary: m)
  case Nil
  then show ?case by simp
next
  case (Cons r items)
  show ?case unfolding foldl_Cons Cons.IH groupFallback_keys by auto
qed

lemma set_sortBy_byCountDesc: "set (sortBy byCountDesc m) = set m"
proof -
  have "sortBy byCountDesc m = sort_key (\<lambda>e. - int (length (snd e))) m"
    using sortBy_sort_key[of "\<lambda>e. int (length (snd e))" m] by (simp add: byCountDesc_def[abs_def])
  then show ?thesis by simp
qed

lemma sortBy_byCountDesc_Nil: "sortBy byCountDesc m = [] \<longleftrightarrow> m = []"
  using set_sortBy_byCountDesc[of m] by (metis set_empty)

lemma fallback_None_iff:
  "fallbackThemeAndCount items ex pref = None \<longleftrightarrow>
     (\<forall>r\<in>set items. getThemeForCommentBackend (comment r) = ''Other'' \<or> getThemeForCommentBackend (comment r) \<in> ex)"
proof (cases "items = []")
  case True
  then show ?thesis by (simp add: fallbackThemeAndCount_def)
next
  case False
  define m where "m = foldl (groupFallback ex) [] items"
  have keys: "fst ` set m = {t. \<exists>r\<in>set items. t = getThemeForCommentBackend (comment r) \<and> t \<noteq> ''Other'' \<and> t \<notin> ex}"
    unfolding m_def foldl_groupFallback_keys by simp
  have e: "m = [] \<longleftrightarrow> (\<forall>r\<in>set items. getThemeForCommentBackend (comment r) = ''Other'' \<or> getThemeForCommentBackend (comment r) \<in> ex)"
  proof
    assume "m = []"
    then have "fst ` set m = {}" by simp
    then show "\<forall>r\<in>set items. getThemeForCommentBackend (comment r) = ''Other'' \<or> getThemeForCommentBackend (comment r) \<in> ex"
      unfolding keys by blast
  next
    assume "\<forall>r\<in>set items. getThemeForCommentBackend (comment r) = ''Other'' \<or> getThemeForCommentBackend (comment r) \<in> ex"
    then have "fst ` set m = {}" unfolding keys by blast
    then show "m = []" by simp
  qed
  have "fallbackThemeAndCount items ex pref = None \<longleftrightarrow> m = []"
  proof (cases "m = []")
    case True
    then show ?thesis using False
      by (simp add: fallbackThemeAndCount_def m_def[symmetric] Let_def sortBy_def split: option.splits)
  next
    case nonempty: False
    then have "sortBy byCountDesc m \<noteq> []" by (simp add: sortBy_byCountDesc_Nil)
    then show ?thesis using False nonempty
      by (auto simp: fallbackThemeAndCount_def m_def[symmetric] Let_def split: option.splits list.splits)
  qed
  then show ?thesis using e by simp
qed

lemma groupLow_keys:
  "fst ` set (groupLow ex inc m r) =
     (if (\<not> inc \<and> getThemeForCommentBackend (comment r) = ''Other'') \<or> getThemeForCommentBackend (comment r) \<in> ex
      then fst ` set m
      else insert (if getThemeForCommentBackend (comment r) = ''Other'' \<and> inc then ''Various feedback''
                   else getThemeForCommentBackend (comment r)) (fst ` set m))"
  by (simp add: groupLow_def Let_def pushRow_keys)

lemma foldl_groupLow_Nil:
  "foldl (groupLow ex inc) m items = [] \<longleftrightarrow>
     m = [] \<and> (\<forall>r\<in>set items. (\<not> inc \<and> getThemeForCommentBackend (comment r) = ''Other'')
                  \<or> getThemeForCommentBackend (comment r) \<in> ex)"
proof (induction items arbitrary: m)
  case Nil
  then show ?case by simp
next
  case (Cons r items)
  have "groupLow ex inc m r = [] \<longleftrightarrow> m = [] \<and> ((\<not> inc \<and> getThemeForCommentBackend (comment r) = ''Other'')
                  \<or> getThemeForCommentBackend (comment r) \<in> ex)"
  proof -
    have "groupLow ex inc m r = [] \<longleftrightarrow> fst ` set (groupLow ex inc m r) = {}" by simp
    then show ?thesis unfolding groupLow_keys by auto
  qed
  then show ?case unfolding foldl_Cons Cons.IH by auto
qed

lemma getTopThemesForLowBucket_Nil:
  "getTopThemesForLowBucket items ex inc = [] \<longleftrightarrow>
     (\<forall>r\<in>set items. (\<not> inc \<and> getThemeForCommentBackend (comment r) = ''Other'')
                  \<or> getThemeForCommentBackend (comment r) \<in> ex)"
proof (cases "items = []")
  case True
  then show ?thesis by (simp add: getTopThemesForLowBucket_def)
next
  case False
  have "take LOW_IMPACT_MAX_ISSUES xs = [] \<longleftrightarrow> xs = []" for xs :: "(string \<times> FeedbackRow list) list"
    by (simp add: LOW_IMPACT_MAX_ISSUES_def)
  then show ?thesis using False
    by (simp add: getTopThemesForLowBucket_def sortBy_byCountDesc_Nil foldl_groupLow_Nil
          LOW_IMPACT_MAX_ISSUES_def)
qed

lemma addLabel_mono: "s \<subseteq> s' \<Longrightarrow> addLabel k s \<subseteq> addLabel k s'"
  by (auto simp: addLabel_def split: option.splits)

lemma lowIssuesOf_Nil:
  assumes "addLabel mon (addLabel crit {}) \<subseteq> addLabel mon monitorExclude"
  shows "lowIssuesOf lowItems monitorExclude crit mon = [] \<longleftrightarrow>
     (\<forall>r\<in>set lowItems. getThemeForCommentBackend (comment r) \<in> addLabel mon (addLabel crit {}))"
proof -
  define E where "E = addLabel mon (addLabel crit {})"
  define L where "L = addLabel mon monitorExclude"
  define T where "T = (\<lambda>r::FeedbackRow. getThemeForCommentBackend (comment r))"
  define l1 where "l1 = getTopThemesForLowBucket lowItems L False"
  define l2 where "l2 = getTopThemesForLowBucket lowItems E False"
  define l3 where "l3 = getTopThemesForLowBucket lowItems E True"
  have sub: "E \<subseteq> L" using assms by (simp only: E_def L_def)
  have s1: "l1 = [] \<longleftrightarrow> (\<forall>r\<in>set lowItems. T r = ''Other'' \<or> T r \<in> L)"
    unfolding l1_def T_def getTopThemesForLowBucket_Nil by simp
  have s2: "l2 = [] \<longleftrightarrow> (\<forall>r\<in>set lowItems. T r = ''Other'' \<or> T r \<in> E)"
    unfolding l2_def T_def getTopThemesForLowBucket_Nil by simp
  have s3: "l3 = [] \<longleftrightarrow> (\<forall>r\<in>set lowItems. T r \<in> E)"
    unfolding l3_def T_def getTopThemesForLowBucket_Nil by simp
  have r: "lowIssuesOf lowItems monitorExclude crit mon =
      (if (if l1 = [] \<and> lowItems \<noteq> [] then l2 else l1) = [] \<and> lowItems \<noteq> [] then l3
       else (if l1 = [] \<and> lowItems \<noteq> [] then l2 else l1))"
    unfolding lowIssuesOf_def Let_def l1_def l2_def l3_def E_def L_def by (rule refl)
  have goal: "(if (if l1 = [] \<and> lowItems \<noteq> [] then l2 else l1) = [] \<and> lowItems \<noteq> [] then l3
       else (if l1 = [] \<and> lowItems \<noteq> [] then l2 else l1)) = [] \<longleftrightarrow> (\<forall>r\<in>set lowItems. T r \<in> E)"
  proof (cases "lowItems = []")
    case True
    then have "l1 = []" using s1 by simp
    then show ?thesis using True by simp
  next
    case ne: False
    show ?thesis
    proof (cases "l1 = []")
      case False
      then obtain x where "x \<in> set lowItems" "T x \<notin> L" using s1 by blast
      then have "\<not> (\<forall>r\<in>set lowItems. T r \<in> E)" using sub by blast
      then show ?thesis using False by simp
    next
      case e1: True
      show ?thesis
      proof (cases "l2 = []")
        case False
        then obtain x where "x \<in> set lowItems" "T x \<notin> E" using s2 by blast
        then have "\<not> (\<forall>r\<in>set lowItems. T r \<in> E)" by blast
        then show ?thesis using False e1 ne by simp
      next
        case True
        then show ?thesis using e1 ne s3 by simp
      qed
    qed
  qed
  show ?thesis unfolding r using goal unfolding T_def E_def by simp
qed

lemma kpiThemes_low:
  "low (kpiThemes items) \<noteq> None \<longleftrightarrow>
     (\<exists>r\<in>set (bucket ''positive'' items).
        getThemeForCommentBackend (comment r) \<notin>
          addLabel (monitor (kpiThemes items)) (addLabel (critical (kpiThemes items)) {}))"
proof -
  define crit where "crit = kpiCritical items"
  define mon where "mon = kpiMonitor items"
  have sub: "addLabel mon (addLabel crit {}) \<subseteq> addLabel mon (addLabel crit KPI_EXCLUDED_THEMES)"
    by (intro addLabel_mono) simp
  have "low (kpiThemes items) \<noteq> None \<longleftrightarrow>
        lowIssuesOf (bucket ''positive'' items) (addLabel crit KPI_EXCLUDED_THEMES) crit mon \<noteq> []"
    by (simp add: kpiThemes_def kpiLowIssues_def kpiMonitorExclude_def crit_def mon_def)
  also have "\<dots> \<longleftrightarrow> \<not> (\<forall>r\<in>set (bucket ''positive'' items).
        getThemeForCommentBackend (comment r) \<in> addLabel mon (addLabel crit {}))"
    by (simp only: lowIssuesOf_Nil[OF sub])
  finally have "low (kpiThemes items) \<noteq> None \<longleftrightarrow>
     (\<exists>r\<in>set (bucket ''positive'' items).
        getThemeForCommentBackend (comment r) \<notin> addLabel mon (addLabel crit {}))"
    by blast
  then show ?thesis by (simp add: kpiThemes_def crit_def mon_def)
qed

section \<open>Evaluation of the KPI samples\<close>

lemma loginRow_theme: "getThemeForCommentBackend (comment loginRow) = ''Authentication / Login Issues''"
  unfolding loginRow_def mkRow_def by code_simp

lemma praiseRow_theme: "getThemeForCommentBackend (comment praiseRow) = ''Other''"
  unfolding praiseRow_def mkRow_def by code_simp

lemma loginPraise_theme: "getThemeForCommentBackend (comment loginPraise) = ''Authentication / Login Issues''"
  unfolding loginPraise_def mkRow_def by code_simp

lemma docsRow_theme: "getThemeForCommentBackend (comment docsRow) = ''Documentation Confusion''"
  unfolding docsRow_def mkRow_def by code_simp

lemma negative_lower: "toLowerCase ''negative'' = ''negative''"
  by code_simp

lemma positive_lower: "toLowerCase ''positive'' = ''positive''"
  by code_simp

lemma sample_sentiments:
  "toLowerCase (sentiment loginRow) = ''negative''"
  "toLowerCase (sentiment praiseRow) = ''negative''"
  "toLowerCase (sentiment loginPraise) = ''positive''"
  "toLowerCase (sentiment docsRow) = ''positive''"
  by (simp_all add: loginRow_def praiseRow_def loginPraise_def docsRow_def mkRow_def
        negative_lower positive_lower)

lemma fallback_single:
  assumes "getThemeForCommentBackend (comment r) = t" "t \<noteq> ''Other''" "t \<notin> ex"
  shows "fallbackThemeAndCount [r] ex None = Some (kpiOf t [r])"
  using assms by (simp add: fallbackThemeAndCount_def groupFallback_def pushRow_def sortBy_def)

lemma label_kpiOf: "label (kpiOf t rows) = t"
  by (simp add: kpiOf_def)

lemma loginDay_critical:
  "bucket ''negative'' [loginRow, r] = [loginRow] \<Longrightarrow>
   kpiCritical [loginRow, r] = Some (kpiOf ''Authentication / Login Issues'' [loginRow])"
  by (simp add: kpiCritical_def Let_def fallback_single[OF loginRow_theme])

lemma loginDay_monitor:
  "bucket ''neutral'' [loginRow, r] = [] \<Longrightarrow> kpiMonitor [loginRow, r] = None"
  by (simp add: kpiMonitor_def Let_def)

lemma buckets_loginPraise:
  "bucket ''negative'' [loginRow, loginPraise] = [loginRow]"
  "bucket ''neutral'' [loginRow, loginPraise] = []"
  "bucket ''positive'' [loginRow, loginPraise] = [loginPraise]"
  by (simp_all add: bucket_def sample_sentiments)

lemma buckets_docs:
  "bucket ''negative'' [loginRow, docsRow] = [loginRow]"
  "bucket ''neutral'' [loginRow, docsRow] = []"
  "bucket ''positive'' [loginRow, docsRow] = [docsRow]"
  by (simp_all add: bucket_def sample_sentiments)

lemma bucket_praise: "bucket ''negative'' [praiseRow] = [praiseRow]"
  by (simp add: bucket_def sample_sentiments)

section \<open>The KPI route\<close>

text \<open>
  C10. The bucket resolver \<open>fallbackThemeAndCount\<close> returns \<open>null\<close> whenever every record
  of the bucket classifies to \<open>Other\<close> or to an excluded theme, so that the \<open>critical\<close> and
  the \<open>monitor\<close> field of the \<open>/api/kpi-themes\<close> response are \<open>null\<close> for such a bucket, also
  when it holds records.
\<close>

theorem fallbackThemeAndCount_null:
  "((\<forall>r\<in>set items. getThemeForCommentBackend (comment r) = ''Other''
        \<or> getThemeForCommentBackend (comment r) \<in> excludeThemes) \<longrightarrow>
      fallbackThemeAndCount items excludeThemes preferTheme = None) \<and>
   ((\<forall>r\<in>set (bucket ''negative'' rows). getThemeForCommentBackend (comment r) = ''Other'') \<longrightarrow>
      critical (kpiThemes rows) = None) \<and>
   ((\<forall>r\<in>set (bucket ''neutral'' rows). getThemeForCommentBackend (comment r) = ''Other''
        \<or> getThemeForCommentBackend (comment r) \<in> addLabel (critical (kpiThemes rows)) KPI_EXCLUDED_THEMES) \<longrightarrow>
      monitor (kpiThemes rows) = None)"
proof (intro conjI impI)
  assume "\<forall>r\<in>set items. getThemeForCommentBackend (comment r) = ''Other''
        \<or> getThemeForCommentBackend (comment r) \<in> excludeThemes"
  then show "fallbackThemeAndCount items excludeThemes preferTheme = None"
    by (simp only: fallback_None_iff)
next
  assume "\<forall>r\<in>set (bucket ''negative'' rows). getThemeForCommentBackend (comment r) = ''Other''"
  then have "fallbackThemeAndCount (bucket ''negative'' rows) {} None = None"
    by (simp add: fallback_None_iff)
  then show "critical (kpiThemes rows) = None"
    by (simp add: kpiThemes_def kpiCritical_def Let_def)
next
  assume "\<forall>r\<in>set (bucket ''neutral'' rows). getThemeForCommentBackend (comment r) = ''Other''
        \<or> getThemeForCommentBackend (comment r) \<in> addLabel (critical (kpiThemes rows)) KPI_EXCLUDED_THEMES"
  then have "\<forall>r\<in>set (bucket ''neutral'' rows). getThemeForCommentBackend (comment r) = ''Other''
        \<or> getThemeForCommentBackend (comment r) \<in> kpiMonitorExclude rows"
    by (simp add: kpiThemes_def kpiMonitorExclude_def)
  then have "fallbackThemeAndCount (bucket ''neutral'' rows) (kpiMonitorExclude rows)
      (Some MONITOR_PREFERRED_THEME) = None"
    by (simp only: fallback_None_iff)
  then show "monitor (kpiThemes rows) = None"
    by (simp add: kpiThemes_def kpiMonitor_def Let_def)
qed

theorem fallbackThemeAndCount_null_witness:
  "bucket ''negative'' [praiseRow] = [praiseRow] \<and>
   getThemeForCommentBackend (comment praiseRow) = ''Other'' \<and>
   fallbackThemeAndCount [praiseRow] {} None = None \<and>
   critical (kpiThemes [praiseRow]) = None"
proof -
  have t: "getThemeForCommentBackend (comment praiseRow) = ''Other''" by (rule praiseRow_theme)
  have a: "\<forall>r\<in>set [praiseRow]. getThemeForCommentBackend (comment r) = ''Other''
        \<or> getThemeForCommentBackend (comment r) \<in> {}"
    by (simp add: t)
  have b: "\<forall>r\<in>set (bucket ''negative'' [praiseRow]). getThemeForCommentBackend (comment r) = ''Other''"
    by (simp add: bucket_praise t)
  from fallbackThemeAndCount_null [of "[praiseRow]" "{}" None "[praiseRow]"] a b t bucket_praise
  show ?thesis by blast
qed

text \<open>
  C5, as amended. The \<open>low\<close> field of the KPI response is not \<open>null\<close> exactly when the
  positive-sentiment bucket holds a record whose theme is neither the label resolved for
  Critical nor the one resolved for Monitor: the three steps of the relaxation all
  exclude these two labels.
\<close>

theorem kpiThemes_low_nonnull:
  "low (kpiThemes items) \<noteq> None \<longleftrightarrow>
     (\<exists>r\<in>set (bucket ''positive'' items).
        getThemeForCommentBackend (comment r) \<notin>
          addLabel (monitor (kpiThemes items)) (addLabel (critical (kpiThemes items)) {}))"
  by (rule kpiThemes_low)

theorem kpiThemes_low_nonnull_witness:
  "bucket ''positive'' [loginRow, docsRow] = [docsRow] \<and>
   critical (kpiThemes [loginRow, docsRow]) = Some (kpiOf ''Authentication / Login Issues'' [loginRow]) \<and>
   monitor (kpiThemes [loginRow, docsRow]) = None \<and>
   getThemeForCommentBackend (comment docsRow) = ''Documentation Confusion'' \<and>
   low (kpiThemes [loginRow, docsRow]) \<noteq> None"
proof -
  have c: "critical (kpiThemes [loginRow, docsRow]) = Some (kpiOf ''Authentication / Login Issues'' [loginRow])"
    by (simp add: kpiThemes_def loginDay_critical buckets_docs)
  have m: "monitor (kpiThemes [loginRow, docsRow]) = None"
    by (simp add: kpiThemes_def loginDay_monitor buckets_docs)
  have e: "\<exists>r\<in>set (bucket ''positive'' [loginRow, docsRow]).
        getThemeForCommentBackend (comment r) \<notin>
          addLabel (monitor (kpiThemes [loginRow, docsRow])) (addLabel (critical (kpiThemes [loginRow, docsRow])) {})"
    by (simp add: c m buckets_docs docsRow_theme addLabel_def label_kpiOf)
  from kpiThemes_low_nonnull [of "[loginRow, docsRow]"] e c m buckets_docs(3) docsRow_theme
  show ?thesis by blast
qed

text \<open>
  C5 as stated fails: one negative and one positive record about the login. The positive
  bucket holds a record, its only theme is the label of Critical, and the three steps of
  the relaxation return no issue: \<open>low\<close> is \<open>null\<close>.
\<close>

theorem kpiThemes_low_null_with_records:
  "bucket ''positive'' [loginRow, loginPraise] = [loginPraise] \<and>
   lowIssuesOf (bucket ''positive'' [loginRow, loginPraise]) (kpiMonitorExclude [loginRow, loginPraise])
     (kpiCritical [loginRow, loginPraise]) (kpiMonitor [loginRow, loginPraise]) = [] \<and>
   low (kpiThemes [loginRow, loginPraise]) = None"
proof -
  have c: "kpiCritical [loginRow, loginPraise] = Some (kpiOf ''Authentication / Login Issues'' [loginRow])"
    by (simp add: loginDay_critical buckets_loginPraise)
  have m: "kpiMonitor [loginRow, loginPraise] = None"
    by (simp add: loginDay_monitor buckets_loginPraise)
  have sub: "addLabel None (addLabel (kpiCritical [loginRow, loginPraise]) {})
      \<subseteq> addLabel None (kpiMonitorExclude [loginRow, loginPraise])"
    unfolding kpiMonitorExclude_def by (intro addLabel_mono) simp
  have l: "lowIssuesOf [loginPraise] (kpiMonitorExclude [loginRow, loginPraise])
     (kpiCritical [loginRow, loginPraise]) None = []"
    unfolding lowIssuesOf_Nil[OF sub] by (simp add: c loginPraise_theme addLabel_def label_kpiOf)
  show ?thesis by (simp add: buckets_loginPraise kpiThemes_def kpiLowIssues_def m l)
qed

section \<open>The password-reset rule\<close>

lemma keywordTheme_password:
  "includesStr lower ''password'' \<Longrightarrow>
   keywordTheme KEYWORD_TO_THEME lower = Some ''Authentication / Login Issues''"
  by (simp add: KEYWORD_TO_THEME_def CANONICAL_THEMES_def)

lemma no_password_reset_keyword_rule: "''Password Reset Issues'' \<notin> snd ` set KEYWORD_TO_THEME"
  by (simp add: KEYWORD_TO_THEME_def CANONICAL_THEMES_def)

text \<open>
  C4, as amended. In the canonicalizer of oracle labels the password-reset rule is the
  first rule: a label that matches a password-reset pattern becomes
  \<open>Password Reset Issues\<close>. The keyword table \<open>KEYWORD_TO_THEME\<close> has no password-reset
  rule, and a text that contains \<open>password\<close> gets the theme of its first rule,
  \<open>Authentication / Login Issues\<close>.
\<close>

theorem password_reset_rule_in_canonicalizer:
  "(wordTest rePasswordReset (toLowerCase aiLabel) \<longrightarrow>
      normalizeToCanonicalCluster aiLabel = ''Password Reset Issues'') \<and>
   ''Password Reset Issues'' \<notin> snd ` set KEYWORD_TO_THEME \<and>
   (includesStr lower ''password'' \<longrightarrow>
      keywordTheme KEYWORD_TO_THEME lower = Some ''Authentication / Login Issues'')"
  using keywordTheme_password no_password_reset_keyword_rule
  by (simp add: normalizeToCanonicalCluster_def Let_def)

theorem password_reset_rule_in_canonicalizer_witness:
  "wordTest rePasswordReset (toLowerCase ''Password Reset Link'') \<and>
   normalizeToCanonicalCluster ''Password Reset Link'' = ''Password Reset Issues'' \<and>
   includesStr ''password reset'' ''password'' \<and>
   keywordTheme KEYWORD_TO_THEME ''password reset'' = Some ''Authentication / Login Issues''"
proof -
  have a: "wordTest rePasswordReset (toLowerCase ''Password Reset Link'')" by code_simp
  have b: "includesStr ''password reset'' ''password''" by code_simp
  from password_reset_rule_in_canonicalizer [of "''Password Reset Link''" "''password reset''"] a b
  show ?thesis by blast
qed

text \<open>
  C4 as stated fails in the two other classifiers. \<open>password reset\<close> matches the
  password-reset pattern, and the classifier of the KPI buckets returns the generic
  authentication theme (its authentication rule comes first and lists \<open>password\<close>), as
  does the keyword table; \<open>link expired\<close> matches the pattern too, and the keyword table
  returns the generic link theme.
\<close>

theorem password_reset_rule_not_first_elsewhere:
  "wordTest rePasswordReset (toLowerCase ''password reset'') \<and>
   getThemeForCommentBackend ''password reset'' = ''Authentication / Login Issues'' \<and>
   toAbstractLabel ''password reset'' = Some ''Authentication / Login Issues'' \<and>
   wordTest rePasswordReset (toLowerCase ''link expired'') \<and>
   toAbstractLabel ''link expired'' = Some ''Link / Validation Errors''"
proof -
  have 1: "wordTest rePasswordReset (toLowerCase ''password reset'')" by code_simp
  have 2: "getThemeForCommentBackend ''password reset'' = ''Authentication / Login Issues''" by code_simp
  have 3: "toAbstractLabel ''password reset'' = Some ''Authentication / Login Issues''" by code_simp
  have 4: "wordTest rePasswordReset (toLowerCase ''link expired'')" by code_simp
  have 5: "toAbstractLabel ''link expired'' = Some ''Link / Validation Errors''" by code_simp
  show ?thesis using 1 2 3 4 5 by blast
qed

section \<open>The minimum share\<close>

lemma KPI_MIN_SHARE_value: "KPI_MIN_SHARE = 3602879701896397 / 2 ^ 56"
  unfolding KPI_MIN_SHARE_def by code_simp

lemma fl_ge_grid:
  assumes "0 < x" and "x < 2 ^ 47" and "of_int a / 32 \<le> x"
  shows "of_int a / 32 \<le> fl x"
proof -
  define e where "e = ilog2 x"
  have "2 powi e \<le> x" using ilog2_le[of x] assms(1) by (simp add: e_def)
  then have "(2::rat) powi e < 2 powi 47" using assms(2) by simp
  then have "e < 47" by (intro power_int_le_imp_less_exp[of "2::rat"]) auto
  then have e47: "e \<le> 47" by simp
  define m where "m = nat (47 - e)"
  have ulp: "(2::rat) powi (e - 52) = 1 / (32 * 2 ^ m)"
  proof -
    have "e - 52 = - int (5 + m)" using e47 by (simp add: m_def)
    then have "(2::rat) powi (e - 52) = inverse (2 powi (int (5 + m)))"
      by (simp only: power_int_minus)
    also have "\<dots> = 1 / 2 ^ (5 + m)"
      by (simp only: power_int_of_nat inverse_eq_divide)
    finally show ?thesis by (simp add: power_add)
  qed
  have "of_int (a * 2 ^ m) = (of_int a / 32) * (32 * 2 ^ m :: rat)" by simp
  also have "\<dots> \<le> x * (32 * 2 ^ m)" using assms(3) by (simp add: mult_right_mono)
  also have "\<dots> = x / (2 powi (e - 52))" by (simp add: ulp)
  finally have "a * 2 ^ m \<le> roundHalfEven (x / (2 powi (e - 52)))"
    by (rule roundHalfEven_ge)
  then have "(of_int (a * 2 ^ m) :: rat) \<le> of_int (roundHalfEven (x / (2 powi (e - 52))))"
    by (simp only: of_int_le_iff)
  then have "(of_int a / 32 :: rat) \<le> of_int (roundHalfEven (x / (2 powi (e - 52)))) * (1 / (32 * 2 ^ m))"
    by (simp add: divide_simps)
  then show ?thesis using assms(1) by (simp add: fl_def Let_def e_def[symmetric] ulp)
qed

lemma below_share:
  assumes "20 * c < n" and "n < 2 ^ 32"
  shows "(of_nat c :: rat) < jsMul KPI_MIN_SHARE (of_nat n)"
proof -
  define x :: rat where "x = KPI_MIN_SHARE * of_nat n"
  have n1: "(of_nat (20 * c + 1) :: rat) \<le> of_nat n" using assms(1) by (simp only: of_nat_le_iff)
  have k0: "(0::rat) < KPI_MIN_SHARE" by (simp add: KPI_MIN_SHARE_value)
  have "of_int (32 * int c + 1) / 32 \<le> KPI_MIN_SHARE * (of_nat (20 * c + 1) :: rat)"
    by (simp add: KPI_MIN_SHARE_value field_simps)
  also have "\<dots> \<le> x" unfolding x_def using n1 k0 by (intro mult_left_mono) simp_all
  finally have lo: "of_int (32 * int c + 1) / 32 \<le> x" .
  have npos: "0 < n" using assms(1) by simp
  have xpos: "0 < x" unfolding x_def using k0 npos by simp
  have "x \<le> of_nat n" unfolding x_def using k0 by (simp add: KPI_MIN_SHARE_value field_simps)
  also have "(of_nat n :: rat) < of_nat (2 ^ 32)" using assms(2) by (simp only: of_nat_less_iff)
  also have "(of_nat (2 ^ 32) :: rat) \<le> 2 ^ 47" by simp
  finally have hi: "x < 2 ^ 47" .
  have "of_int (32 * int c + 1) / 32 \<le> fl x" by (rule fl_ge_grid[OF xpos hi lo])
  moreover have "(of_nat c :: rat) < of_int (32 * int c + 1) / 32" by (simp add: field_simps)
  ultimately show ?thesis by (simp add: jsMul_def x_def)
qed

text \<open>The test of the code, \<open>count < KPI_MIN_SHARE * bucketSize\<close> on binary64 numbers, is the
  exact one: twenty times the count is below the size.\<close>

lemma ilog2_less: "x \<noteq> 0 \<Longrightarrow> \<bar>x\<bar> < 2 powi (ilog2 x + 1)"
proof -
  assume nz: "x \<noteq> 0"
  obtain p q where pq: "quotient_of \<bar>x\<bar> = (p, q)" by (cases "quotient_of \<bar>x\<bar>")
  have q0: "0 < q" using pq quotient_of_denom_pos by blast
  have xe: "\<bar>x\<bar> = of_int p / of_int q" using pq quotient_of_div by blast
  have "0 < \<bar>x\<bar>" using nz by simp
  then have p0: "0 < p" using xe q0 by (simp add: zero_less_divide_iff)
  define k where "k = bitlen p - bitlen q"
  have bp: "p < 2 ^ nat (bitlen p)" using bitlen_bounds[OF p0] by simp
  have bq: "2 ^ nat (bitlen q - 1) \<le> q" using bitlen_bounds[OF q0] by simp
  have bp1: "1 \<le> bitlen p" using p0 by (auto simp: bitlen_alt_def)
  have bq1: "1 \<le> bitlen q" using q0 by (auto simp: bitlen_alt_def)
  have up: "\<bar>x\<bar> < 2 powi (k + 1)"
  proof -
    have 1: "(of_int p :: rat) < 2 ^ nat (bitlen p)"
      using bp by (metis of_int_less_iff of_int_numeral of_int_power)
    have 2: "(2::rat) ^ nat (bitlen q - 1) \<le> of_int q"
      using bq by (metis of_int_le_iff of_int_numeral of_int_power)
    have 3: "(0::rat) < 2 ^ nat (bitlen q - 1)" by simp
    have 4: "(0::rat) \<le> of_int p" using p0 by simp
    have "of_int p / of_int q < (2::rat) ^ nat (bitlen p) / 2 ^ nat (bitlen q - 1)"
      by (rule frac_less[OF 4 1 3 2])
    also have "\<dots> = 2 powi (bitlen p) / 2 powi (bitlen q - 1)"
      using bp1 bq1 by (simp add: power_int_def)
    also have "\<dots> = 2 powi (k + 1)"
      by (simp add: k_def power_int_diff power_int_add)
    finally show ?thesis using xe by simp
  qed
  show ?thesis
  proof (cases "2 powi k \<le> \<bar>x\<bar>")
    case True
    then have "ilog2 x = k" using pq by (simp add: ilog2_def Let_def k_def)
    then show ?thesis using up by simp
  next
    case False
    then have "ilog2 x = k - 1" using pq by (simp add: ilog2_def Let_def k_def)
    then show ?thesis using False by simp
  qed
qed

lemma roundHalfEven_below_half: "q < of_int n + 1 / 2 \<Longrightarrow> roundHalfEven q \<le> n"
proof -
  assume a: "q < of_int n + 1 / 2"
  have "q < of_int (n + 1)" using a by simp
  then have "\<lfloor>q\<rfloor> < n + 1" by (simp only: floor_less_iff)
  then have f: "\<lfloor>q\<rfloor> \<le> n" by simp
  show ?thesis
  proof (cases "\<lfloor>q\<rfloor> = n")
    case True
    then have "q - of_int \<lfloor>q\<rfloor> < 1 / 2" using a by simp
    then have "roundHalfEven q = \<lfloor>q\<rfloor>" unfolding roundHalfEven_def Let_def by simp
    then show ?thesis using True by simp
  next
    case False
    then have "\<lfloor>q\<rfloor> < n" using f by simp
    then show ?thesis using roundHalfEven_cases[of q] by linarith
  qed
qed

lemma not_below_share:
  assumes "n \<le> 20 * c" and "n < 2 ^ 32"
  shows "jsMul KPI_MIN_SHARE (of_nat n) \<le> (of_nat c :: rat)"
proof -
  define x :: rat where "x = KPI_MIN_SHARE * of_nat n"
  have k0: "(0::rat) < KPI_MIN_SHARE" by (simp add: KPI_MIN_SHARE_value)
  have n1: "(of_nat n :: rat) \<le> of_nat (20 * c)" using assms(1) by (simp only: of_nat_le_iff)
  have "x \<le> KPI_MIN_SHARE * of_nat (20 * c)" unfolding x_def using n1 k0 by (intro mult_left_mono) simp_all
  also have "\<dots> = of_nat c + of_nat c / 2 ^ 54" by (simp add: KPI_MIN_SHARE_value field_simps)
  finally have xu: "x \<le> of_nat c + of_nat c / 2 ^ 54" .
  show ?thesis
  proof (cases "x \<le> of_nat c")
    case True
    show ?thesis
    proof (cases "x = 0")
      case True
      then show ?thesis by (simp add: jsMul_def x_def[symmetric] fl_zero)
    next
      case False
      have "0 \<le> x" unfolding x_def using k0 by simp
      then have xp: "0 < x" using False by simp
      have "x \<le> of_nat n" unfolding x_def using k0 by (simp add: KPI_MIN_SHARE_value field_simps)
      also have "(of_nat n :: rat) < of_nat (2 ^ 32)" using assms(2) by (simp only: of_nat_less_iff)
      also have "(of_nat (2 ^ 32) :: rat) \<le> 2 ^ 53" by simp
      finally have hi: "x < 2 ^ 53" .
      have "x \<le> of_int (int c)" using True by simp
      then have "fl x \<le> of_int (int c)" by (rule fl_le_int[OF xp _ hi])
      then show ?thesis by (simp add: jsMul_def x_def)
    qed
  next
    case False
    then have cx: "of_nat c < x" by simp
    then have xp: "0 < x" by (meson of_nat_0_le_iff order_le_less_trans)
    define e where "e = ilog2 x"
    have lo: "2 powi e \<le> x" using ilog2_le[of x] xp by (simp add: e_def)
    have up: "x < 2 powi (e + 1)" using ilog2_less[of x] xp by (simp add: e_def)
    have "x \<le> of_nat n" unfolding x_def using k0 by (simp add: KPI_MIN_SHARE_value field_simps)
    also have "(of_nat n :: rat) < of_nat (2 ^ 32)" using assms(2) by (simp only: of_nat_less_iff)
    also have "(of_nat (2 ^ 32) :: rat) = 2 powi 32" by simp
    finally have "(2::rat) powi e < 2 powi 32" using lo by simp
    then have "e < 32" by (intro power_int_le_imp_less_exp[of "2::rat"]) auto
    define m where "m = nat (52 - e)"
    have im: "int m = 52 - e" using \<open>e < 32\<close> by (simp add: m_def)
    have em: "e - 52 = - int m" using im by linarith
    have "(2::rat) powi (e - 52) = inverse (2 powi (int m))" unfolding em by (simp only: power_int_minus)
    then have ulp: "(2::rat) powi (e - 52) = 1 / 2 ^ m"
      by (simp only: power_int_of_nat inverse_eq_divide)
    have "(2::rat) powi (e + 1) * 2 powi (int m) = 2 powi (e + 1 + int m)"
      by (simp add: power_int_add)
    also have "e + 1 + int m = 53" using im by linarith
    finally have p53: "(2::rat) powi (e + 1) * 2 ^ m = 2 ^ 53" by simp
    have cup: "(of_nat c :: rat) < 2 powi (e + 1)" using cx up by simp
    have "(of_nat c :: rat) * 2 ^ m < 2 powi (e + 1) * 2 ^ m"
      using cup by (simp add: mult_strict_right_mono)
    then have cU: "(of_nat c :: rat) * 2 ^ m < 2 ^ 53" using p53 by simp
    have "x * 2 ^ m \<le> (of_nat c + of_nat c / 2 ^ 54) * 2 ^ m"
      using xu by (simp add: mult_right_mono)
    also have "\<dots> = of_nat c * 2 ^ m + (of_nat c * 2 ^ m) / 2 ^ 54"
      by (simp add: field_simps)
    also have "\<dots> < of_nat c * 2 ^ m + 2 ^ 53 / 2 ^ 54"
      using cU by (simp add: divide_strict_right_mono)
    also have "\<dots> = of_int (int c * 2 ^ m) + 1 / 2" by simp
    finally have "x * 2 ^ m < of_int (int c * 2 ^ m) + 1 / 2" .
    then have "roundHalfEven (x * 2 ^ m) \<le> int c * 2 ^ m" by (rule roundHalfEven_below_half)
    then have "(of_int (roundHalfEven (x * 2 ^ m)) :: rat) \<le> of_int (int c * 2 ^ m)"
      by (simp only: of_int_le_iff)
    then have "of_int (roundHalfEven (x * 2 ^ m)) * (1 / 2 ^ m) \<le> (of_nat c :: rat)"
      by (simp add: divide_simps)
    then have "fl x \<le> of_nat c"
      using xp by (simp add: fl_def Let_def e_def[symmetric] ulp)
    then show ?thesis by (simp add: jsMul_def x_def)
  qed
qed

lemma share_test_exact:
  assumes "n < 2 ^ 32"
  shows "(of_nat c :: rat) < jsMul KPI_MIN_SHARE (of_nat n) \<longleftrightarrow> 20 * c < n"
proof
  assume "(of_nat c :: rat) < jsMul KPI_MIN_SHARE (of_nat n)"
  then show "20 * c < n" using not_below_share[OF _ assms, of c] by (meson leD leI)
next
  assume "20 * c < n"
  then show "(of_nat c :: rat) < jsMul KPI_MIN_SHARE (of_nat n)" using assms by (rule below_share)
qed

section \<open>The oracle is optional\<close>

lemma tryOracle_thrown:
  "oracleAnswer ai JSON_parse items = None \<Longrightarrow>
   tryOracle ai JSON_parse items excludeThemes preferTheme = Inl Thrown"
  by (auto simp: oracleAnswer_def tryOracle_def split: option.splits ai_result.splits)

lemma tryOracle_parsed:
  assumes "oracleAnswer ai JSON_parse items = Some parsed"
  shows "tryOracle ai JSON_parse items excludeThemes preferTheme =
     Inr (if issueLabel parsed = [] \<or> matchingIndices parsed = []
          then fallbackResult items excludeThemes preferTheme
          else acceptOracle items excludeThemes preferTheme (issueLabel parsed))"
proof -
  obtain run answer where a: "ai = Some run"
      "run (themePrompt (take 50 (map comment items))) = AiText answer"
      "parseAiJson JSON_parse answer = Some parsed"
    using assms by (auto simp: oracleAnswer_def split: option.splits ai_result.splits)
  define fb where "fb = fallbackResult items excludeThemes preferTheme"
  define acc where "acc = acceptOracle items excludeThemes preferTheme"
  have t: "tryOracle ai JSON_parse items excludeThemes preferTheme =
      (case (case field parsed ''issue'' of Some (JStr i) \<Rightarrow> Some (trim i) | _ \<Rightarrow> None) of
         None \<Rightarrow> Inr fb
       | Some l \<Rightarrow> if l = [] \<or> matchingIndices parsed = [] then Inr fb else Inr (acc l))"
    unfolding tryOracle_def Let_def matchingIndices_def fb_def acc_def by (simp add: a)
  have "(case (case field parsed ''issue'' of Some (JStr i) \<Rightarrow> Some (trim i) | _ \<Rightarrow> None) of
         None \<Rightarrow> Inr fb
       | Some l \<Rightarrow> if l = [] \<or> matchingIndices parsed = [] then Inr fb else Inr (acc l)) =
       Inr (if issueLabel parsed = [] \<or> matchingIndices parsed = [] then fb else acc (issueLabel parsed))"
  proof (cases "field parsed ''issue''")
    case None
    then show ?thesis by (simp add: issueLabel_def)
  next
    case (Some v)
    then show ?thesis by (cases v) (simp_all add: issueLabel_def)
  qed
  then show ?thesis unfolding t fb_def acc_def .
qed

lemma acceptOracle_rejects:
  assumes "5 < length (splitWsU (postProcessThemeLabel l))
           \<or> normalizeToCanonicalClusterU (postProcessThemeLabel l) \<in> widen ` excludeThemes
           \<or> of_nat (fst (countForCluster items (normalizeToCanonicalClusterU (postProcessThemeLabel l))))
               < jsMul KPI_MIN_SHARE (of_nat (length items))"
  shows "acceptOracle items excludeThemes preferTheme l = fallbackResult items excludeThemes preferTheme"
  using assms by (auto simp: acceptOracle_def Let_def)

subsection \<open>Labels with code units above 255\<close>

text \<open>On a string, the functions on labels are the functions on strings.\<close>

lemma headOptU_widen: "headOptU (widen s) = map_option Latin (headOpt s)"
  by (cases s) (simp_all add: headOptU_def headOpt_def widen_def)

lemma isWordAtU_Latin: "isWordAtU (map_option Latin c) = isWordAt c"
  by (cases c) (simp_all add: isWordAtU_def isWordAt_def)

lemma boundaryU_Latin:
  "boundaryU (map_option Latin a) (map_option Latin b) = boundary a b"
  by (simp add: boundaryU_def boundary_def isWordAtU_Latin)

lemma matchPatU_widen:
  "matchPatU ps (map_option Latin prev) (widen s) =
     map (\<lambda>(b, r). (map_option Latin b, widen r)) (matchPat ps prev s)"
proof (induction ps prev s rule: matchPat.induct)
  case (1 prev s)
  then show ?case by simp
next
  case (2 c ps prev s)
  show ?case
  proof (cases s)
    case Nil
    then show ?thesis by (simp add: widen_def)
  next
    case (Cons d ds)
    then show ?thesis using 2[OF Cons] by (auto simp: widen_def)
  qed
next
  case (3 ps prev s)
  show ?case
  proof (cases s)
    case Nil
    then show ?thesis using 3(2) by (simp add: widen_def)
  next
    case (Cons d ds)
    then show ?thesis using 3(1)[OF Cons] 3(2) by (auto simp: widen_def)
  qed
qed

lemma matchHereU_widen:
  "matchHereU alts (map_option Latin prev) (widen s) = matchHere alts prev s"
  by (simp add: matchHereU_def matchHere_def matchPatU_widen headOptU_widen boundaryU_Latin
        list_ex_iff split_beta)

lemma searchFromU_widen:
  "searchFromU alts (map_option Latin prev) (widen s) = searchFrom alts prev s"
proof (induction s arbitrary: prev)
  case Nil
  show ?case using matchHereU_widen[of alts prev "[]"] by (simp add: widen_def)
next
  case (Cons c cs)
  have "searchFromU alts (Some (Latin c)) (widen cs) = searchFrom alts (Some c) cs"
    using Cons[of "Some c"] by simp
  then show ?case using matchHereU_widen[of alts prev "c # cs"] by (simp add: widen_def)
qed

lemma wordTestU_widen: "wordTestU alts (widen s) = wordTest alts s"
  using searchFromU_widen[of alts None s] by (simp add: wordTestU_def wordTest_def)

lemma toLowerCaseU_widen: "toLowerCaseU (widen s) = widen (toLowerCase s)"
  by (simp add: toLowerCaseU_def toLowerCase_def widen_def)

lemma normalizeToCanonicalClusterU_widen:
  "normalizeToCanonicalClusterU (widen s) = widen (normalizeToCanonicalCluster s)"
  by (simp add: normalizeToCanonicalClusterU_def normalizeToCanonicalCluster_def Let_def
        toLowerCaseU_widen wordTestU_widen)

lemma splitWsFromU_widen:
  "splitWsFromU inRun (map Latin cur) (map Latin s) = map (map Latin) (splitWsFrom inRun cur s)"
proof (induction s arbitrary: inRun cur)
  case Nil
  then show ?case by (simp add: rev_map)
next
  case (Cons a s)
  show ?case
    using Cons[of False "a # cur"] Cons[of True cur] Cons[of True "[]"]
    by (simp add: rev_map)
qed

lemma splitWsU_widen: "splitWsU (widen s) = map widen (splitWs s)"
  using splitWsFromU_widen[of False "[]" s] by (simp add: splitWsU_def splitWs_def widen_def)

text \<open>The test \<open>processedLabel.split(/\s+/).length > 5\<close> never holds:
  \<open>postProcessThemeLabel\<close> joins at most five words, none of them empty, none with white
  space in it, with one space between them.\<close>

lemma splitWsFrom_spaceless:
  "\<forall>c\<in>set cur. \<not> isSpace c \<Longrightarrow> w \<in> set (splitWsFrom inRun cur s) \<Longrightarrow> \<forall>c\<in>set w. \<not> isSpace c"
proof (induction s arbitrary: inRun cur)
  case Nil
  then show ?case by simp
next
  case (Cons a s)
  show ?case
  proof (cases "isSpace a")
    case False
    then have "w \<in> set (splitWsFrom False (a # cur) s)" using Cons.prems(2) by simp
    moreover have "\<forall>c\<in>set (a # cur). \<not> isSpace c" using Cons.prems(1) False by simp
    ultimately show ?thesis by (rule Cons.IH[rotated])
  next
    case sp: True
    show ?thesis
    proof (cases inRun)
      case True
      then have "w \<in> set (splitWsFrom True cur s)" using Cons.prems(2) sp by simp
      then show ?thesis using Cons.prems(1) by (rule Cons.IH[rotated])
    next
      case False
      then have "w = rev cur \<or> w \<in> set (splitWsFrom True [] s)" using Cons.prems(2) sp by simp
      then show ?thesis
      proof
        assume "w = rev cur"
        then show ?thesis using Cons.prems(1) by simp
      next
        assume "w \<in> set (splitWsFrom True [] s)"
        moreover have "\<forall>c\<in>set ([] :: string). \<not> isSpace c" by simp
        ultimately show ?thesis by (rule Cons.IH[rotated])
      qed
    qed
  qed
qed

lemma splitWs_spaceless: "w \<in> set (splitWs s) \<Longrightarrow> c \<in> set w \<Longrightarrow> \<not> isSpace c"
proof -
  assume a: "w \<in> set (splitWs s)" and c: "c \<in> set w"
  have "\<forall>c\<in>set ([] :: string). \<not> isSpace c" by simp
  then have "\<forall>c\<in>set w. \<not> isSpace c"
    using a unfolding splitWs_def by (rule splitWsFrom_spaceless)
  then show ?thesis using c by simp
qed

lemma code_char_of: "n < 256 \<Longrightarrow> code (char_of n) = n"
  by (simp add: code_def)

lemma code_less: "code c < 256"
  by (simp add: code_def)

lemma lowerChar_not_space: "\<not> isSpace c \<Longrightarrow> \<not> isSpace (lowerChar c)"
  by (auto simp: lowerChar_def isSpace_def isUpper_def isUpperLatin_def code_char_of)

lemma upperUnits_not_space:
  assumes "\<not> isSpace c" and "u \<in> set (upperUnits c)"
  shows "\<not> isSpaceU u"
proof -
  consider (lower) "isLower c \<or> isLowerLatin c"
    | (sharp) "\<not> (isLower c \<or> isLowerLatin c)" "code c = 223"
    | (other) "\<not> (isLower c \<or> isLowerLatin c)" "code c \<noteq> 223"
    by blast
  then show ?thesis
  proof cases
    case lower
    then have u: "u = Latin (char_of (code c - 32))" using assms(2) by (simp add: upperUnits_def)
    have r: "65 \<le> code c - 32 \<and> code c - 32 \<le> 222 \<and> code c - 32 \<noteq> 160"
      using lower by (auto simp: isLower_def isLowerLatin_def)
    then have "code (char_of (code c - 32)) = code c - 32" by (intro code_char_of) simp
    then show ?thesis using r by (simp add: u isSpace_def)
  next
    case sharp
    then have "u = Latin (CHR ''S'')" using assms(2) by (simp add: upperUnits_def)
    then show ?thesis by (simp add: isSpace_def code_def)
  next
    case other
    then have "u = U0178 \<or> u = U039C \<or> u = Latin c"
      using assms(2) by (auto simp: upperUnits_def split: if_splits)
    then show ?thesis using assms(1) by auto
  qed
qed

lemma upperUnits_nonempty: "upperUnits c \<noteq> []"
  by (simp add: upperUnits_def)

lemma titleWord_spaceless:
  assumes "\<forall>c\<in>set w. \<not> isSpace c" and "u \<in> set (titleWord w)"
  shows "\<not> isSpaceU u"
proof (cases "2 \<le> length w \<and> widen w = toUpperCase w")
  case True
  then have "titleWord w = widen w" unfolding titleWord_def by (rule if_P)
  then have "u \<in> set (map Latin w)" using assms(2) by (simp only: widen_def)
  then show ?thesis using assms(1) by auto
next
  case False
  then have "titleWord w = toUpperCase (take 1 w) @ widen (toLowerCase (drop 1 w))"
    unfolding titleWord_def by (rule if_not_P)
  then have "u \<in> set (toUpperCase (take 1 w)) \<or> u \<in> Latin ` set (toLowerCase (drop 1 w))"
    using assms(2) by (auto simp: widen_def)
  then show ?thesis
  proof
    assume "u \<in> set (toUpperCase (take 1 w))"
    then obtain c where "c \<in> set (take 1 w)" "u \<in> set (upperUnits c)"
      by (auto simp: toUpperCase_def)
    then show ?thesis using assms(1) upperUnits_not_space by (meson in_set_takeD)
  next
    assume "u \<in> Latin ` set (toLowerCase (drop 1 w))"
    then obtain c where "c \<in> set (drop 1 w)" "u = Latin (lowerChar c)"
      by (auto simp: toLowerCase_def)
    then show ?thesis using assms(1) lowerChar_not_space by (auto dest: in_set_dropD)
  qed
qed

lemma titleWord_nonempty: "w \<noteq> [] \<Longrightarrow> titleWord w \<noteq> []"
proof -
  assume "w \<noteq> []"
  then obtain c cs where w: "w = c # cs" by (cases w) auto
  show ?thesis
  proof (cases "2 \<le> length w \<and> widen w = toUpperCase w")
    case True
    then have "titleWord w = widen w" unfolding titleWord_def by (rule if_P)
    then show ?thesis by (simp add: w widen_def)
  next
    case False
    then have "titleWord w = toUpperCase (take 1 w) @ widen (toLowerCase (drop 1 w))"
      unfolding titleWord_def by (rule if_not_P)
    moreover have "toUpperCase (take 1 w) = upperUnits c" by (simp add: w toUpperCase_def)
    ultimately show ?thesis using upperUnits_nonempty[of c] by simp
  qed
qed

lemma splitWsFromU_word:
  assumes "\<forall>u\<in>set w. \<not> isSpaceU u" and "w = [] \<longrightarrow> \<not> inRun"
  shows "splitWsFromU inRun cur (w @ rest) = splitWsFromU False (rev w @ cur) rest"
  using assms
proof (induction w arbitrary: inRun cur)
  case Nil
  then show ?case by simp
next
  case (Cons u w)
  have "splitWsFromU inRun cur ((u # w) @ rest) = splitWsFromU False (u # cur) (w @ rest)"
    using Cons.prems(1) by simp
  also have "\<dots> = splitWsFromU False (rev w @ u # cur) rest"
    using Cons.IH[of False "u # cur"] Cons.prems(1) by simp
  finally show ?case by simp
qed

lemma splitWsFromU_join:
  assumes "ws \<noteq> []" and "\<forall>w\<in>set ws. w \<noteq> [] \<and> (\<forall>u\<in>set w. \<not> isSpaceU u)"
  shows "splitWsFromU inRun cur (join [Latin (CHR '' '')] ws) = (rev cur @ hd ws) # tl ws"
  using assms
proof (induction ws arbitrary: inRun cur)
  case Nil
  then show ?case by simp
next
  case (Cons w ws)
  have w: "\<forall>u\<in>set w. \<not> isSpaceU u" "w = [] \<longrightarrow> \<not> inRun" using Cons.prems(2) by auto
  show ?case
  proof (cases ws)
    case Nil
    have "splitWsFromU inRun cur (w @ []) = splitWsFromU False (rev w @ cur) []"
      using w by (rule splitWsFromU_word)
    then show ?thesis using Nil by simp
  next
    case (Cons v vs)
    have sp: "isSpaceU (Latin (CHR '' ''))" by (simp add: isSpace_def code_def)
    have "splitWsFromU inRun cur (w @ Latin (CHR '' '') # join [Latin (CHR '' '')] ws) =
          splitWsFromU False (rev w @ cur) (Latin (CHR '' '') # join [Latin (CHR '' '')] ws)"
      using w by (rule splitWsFromU_word)
    also have "\<dots> = rev (rev w @ cur) # splitWsFromU True [] (join [Latin (CHR '' '')] ws)"
      using sp by simp
    also have "splitWsFromU True [] (join [Latin (CHR '' '')] ws) = (rev [] @ hd ws) # tl ws"
      using Cons.prems(2) Cons by (intro Cons.IH) auto
    finally show ?thesis using Cons by simp
  qed
qed

lemma postProcessThemeLabel_words: "length (splitWsU (postProcessThemeLabel raw)) \<le> 5"
proof -
  define s1 where "s1 = trim (stripArticle (stripFiller (takeWhile (\<lambda>c. c \<noteq> CHR 0x0A) (stripQuotes (trim raw)))))"
  define words where "words = take 5 (filter (\<lambda>w. w \<noteq> []) (splitWs s1))"
  define ws where "ws = map titleWord words"
  have p: "postProcessThemeLabel raw = join [Latin (CHR '' '')] ws"
    by (simp add: postProcessThemeLabel_def Let_def s1_def words_def ws_def)
  have len: "length ws \<le> 5" by (simp add: ws_def words_def)
  have w: "w \<noteq> [] \<and> (\<forall>c\<in>set w. \<not> isSpace c)" if "w \<in> set words" for w
  proof -
    have "w \<in> set (filter (\<lambda>w. w \<noteq> []) (splitWs s1))" using that unfolding words_def by (rule in_set_takeD)
    then have "w \<noteq> []" "w \<in> set (splitWs s1)" by simp_all
    then show ?thesis using splitWs_spaceless[of w s1] by blast
  qed
  have g: "\<forall>t\<in>set ws. t \<noteq> [] \<and> (\<forall>u\<in>set t. \<not> isSpaceU u)"
  proof
    fix t assume "t \<in> set ws"
    then obtain x where x: "x \<in> set words" "t = titleWord x" by (auto simp: ws_def)
    have x1: "x \<noteq> []" and x2: "\<forall>c\<in>set x. \<not> isSpace c" using w[OF x(1)] by simp_all
    have "t \<noteq> []" using titleWord_nonempty[OF x1] x(2) by simp
    moreover have "\<forall>u\<in>set t. \<not> isSpaceU u" using titleWord_spaceless[OF x2] x(2) by blast
    ultimately show "t \<noteq> [] \<and> (\<forall>u\<in>set t. \<not> isSpaceU u)" by simp
  qed
  show ?thesis
  proof (cases "ws = []")
    case True
    then show ?thesis by (simp add: p splitWsU_def)
  next
    case False
    have "splitWsU (join [Latin (CHR '' '')] ws) = (rev [] @ hd ws) # tl ws"
      unfolding splitWsU_def by (rule splitWsFromU_join[OF False g])
    then have "length (splitWsU (join [Latin (CHR '' '')] ws)) = length ws" using False by (cases ws) auto
    then show ?thesis using len by (simp add: p)
  qed
qed

subsection \<open>Evaluation of sample answers\<close>

lemma uiRow_theme: "getThemeForCommentBackend (comment uiRow) = ''UI / UX Issues''"
  unfolding uiRow_def mkRow_def by code_simp

lemma sharpS_label: "postProcessThemeLabel (trim [CHR 0xDF, CHR ''o'']) = widen ''SSo''"
  by code_simp

lemma sharpS_words: "splitWsU (widen ''SSo'') = [widen ''SSo'']"
  by code_simp

lemma sharpS_cluster: "normalizeToCanonicalClusterU (widen ''SSo'') = widen ''Authentication / Login Issues''"
  by code_simp

lemma diaeresis_label: "postProcessThemeLabel (trim [CHR 0xFF, CHR ''o'']) = [U0178, Latin (CHR ''o'')]"
  by code_simp

lemma diaeresis_cluster:
  "normalizeToCanonicalClusterU [U0178, Latin (CHR ''o'')] = [U0178, Latin (CHR ''o'')]"
  by code_simp

lemma mu_label: "postProcessThemeLabel [CHR 0xB5, CHR ''A''] = [U039C, Latin (CHR ''a'')]"
  by code_simp

lemma mu_lower: "toLowerCaseU [U039C, Latin (CHR ''a'')] = [U03BC, Latin (CHR ''a'')]"
  by code_simp

lemma eacute: "postProcessThemeLabel [CHR 0xE9, CHR 0xC9, CHR ''X''] = [Latin (CHR 0xC9), Latin (CHR 0xE9), Latin (CHR ''x'')]"
  by code_simp

lemma allcaps: "postProcessThemeLabel ''the API down'' = widen ''API Down''"
  by code_simp

lemma share_3: "\<not> (1 :: rat) < jsMul KPI_MIN_SHARE 3"
  by code_simp

lemma widen_eq: "widen a = widen b \<longleftrightarrow> a = b"
  by (simp add: widen_def inj_map_eq_map inj_on_def)

lemma loginRow_enterprise: "isEnterprise loginRow"
  unfolding loginRow_def mkRow_def isEnterprise_def ENTERPRISE_SOURCES_def by code_simp

lemma trim_sharpS: "trim [CHR 0xDF, CHR ''o''] = [CHR 0xDF, CHR ''o'']"
  by code_simp

lemma trim_diaeresis: "trim [CHR 0xFF, CHR ''o''] = [CHR 0xFF, CHR ''o'']"
  by code_simp

lemma sharpS_count:
  "countForCluster [loginRow, uiRow, uiRow] (widen ''Authentication / Login Issues'') = (1, 1)"
  by (simp add: countForCluster_def loginRow_theme uiRow_theme widen_eq loginRow_enterprise)

lemma sharpS_accepted:
  "generateThemeWithCount (Some sampleOracle) sharpSParse [loginRow, uiRow, uiRow] {} None =
     Some \<lparr>wlabel = widen ''Authentication / Login Issues'', wcount = 1, wenterpriseCount = 1\<rparr>"
proof -
  have a: "acceptOracle [loginRow, uiRow, uiRow] {} None [CHR 0xDF, CHR ''o''] =
      Some \<lparr>wlabel = widen ''Authentication / Login Issues'', wcount = 1, wenterpriseCount = 1\<rparr>"
    using sharpS_label share_3
    by (simp add: acceptOracle_def trim_sharpS sharpS_words sharpS_cluster sharpS_count)
  show ?thesis
    by (simp add: generateThemeWithCount_def tryOracle_def sampleOracle_def parseAiJson_def
          sharpSParse_def sharpSAnswer_def field_def trim_sharpS a)
qed

lemma diaeresis_count: "countForCluster [loginRow] [U0178, Latin (CHR ''o'')] = (0, 0)"
  by (simp add: countForCluster_def widen_def loginRow_theme)

lemma diaeresis_rejected: "oracleRejected (Some sampleOracle) diaeresisParse [loginRow] {}"
proof -
  have a: "oracleAnswer (Some sampleOracle) diaeresisParse [loginRow] = Some diaeresisAnswer"
    by (simp add: oracleAnswer_def sampleOracle_def parseAiJson_def diaeresisParse_def)
  have l: "issueLabel diaeresisAnswer = [CHR 0xFF, CHR ''o'']"
    by (simp add: issueLabel_def diaeresisAnswer_def field_def trim_diaeresis)
  have c: "canonicalLabel diaeresisAnswer = [U0178, Latin (CHR ''o'')]"
    using diaeresis_label by (simp add: canonicalLabel_def l trim_diaeresis diaeresis_cluster)
  show ?thesis by (simp add: oracleRejected_def a c diaeresis_count)
qed

lemma diaeresis_canonical: "canonicalLabel diaeresisAnswer = [U0178, Latin (CHR ''o'')]"
proof -
  have l: "issueLabel diaeresisAnswer = [CHR 0xFF, CHR ''o'']"
    by (simp add: issueLabel_def diaeresisAnswer_def field_def trim_diaeresis)
  show ?thesis using diaeresis_label by (simp add: canonicalLabel_def l trim_diaeresis diaeresis_cluster)
qed

text \<open>
  C6. When the oracle call throws or its output cannot be parsed, or when the issue label
  is empty, the matching indices are empty, the post-processed label has more than five
  words (which never happens: lemma \<open>postProcessThemeLabel_words\<close>), the canonical label
  is excluded, or the matched count is below 5% of the bucket size,
  \<open>generateThemeWithCount\<close> returns what the deterministic classifier
  \<open>fallbackThemeAndCount\<close> returns on the same records, exclusions and preference
  (with its label read as a label of the oracle, \<^const>\<open>widenKpi\<close>). Its
  result is a value in every case: what the \<open>try\<close> block throws is caught and answered by
  the same fallback. The bucket has fewer than \<open>2^32\<close> records, as every array has.
\<close>

theorem generateThemeWithCount_falls_back:
  assumes "oracleRejected ai JSON_parse items excludeThemes" and "length items < 2 ^ 32"
  shows "generateThemeWithCount ai JSON_parse items excludeThemes preferTheme =
         map_option widenKpi (fallbackThemeAndCount items excludeThemes preferTheme)"
proof -
  let ?fb = "fallbackResult items excludeThemes preferTheme"
  have "generateThemeWithCount ai JSON_parse items excludeThemes preferTheme = ?fb"
  proof (cases "items = []")
    case True
    then show ?thesis by (simp add: generateThemeWithCount_def fallbackResult_def fallbackThemeAndCount_def)
  next
    case ne: False
    show ?thesis
    proof (cases "oracleAnswer ai JSON_parse items")
      case None
      then show ?thesis using ne by (simp add: generateThemeWithCount_def tryOracle_thrown)
    next
      case (Some parsed)
      have r: "issueLabel parsed = [] \<or> matchingIndices parsed = [] \<or>
            5 < length (splitWsU (postProcessThemeLabel (issueLabel parsed))) \<or>
            canonicalLabel parsed \<in> widen ` excludeThemes \<or>
            20 * fst (countForCluster items (canonicalLabel parsed)) < length items"
        using assms(1) Some by (simp add: oracleRejected_def)
      have g: "generateThemeWithCount ai JSON_parse items excludeThemes preferTheme =
            (if issueLabel parsed = [] \<or> matchingIndices parsed = []
             then fallbackResult items excludeThemes preferTheme
             else acceptOracle items excludeThemes preferTheme (issueLabel parsed))"
        using ne by (simp add: generateThemeWithCount_def tryOracle_parsed[OF Some])
      show ?thesis
      proof (cases "issueLabel parsed = [] \<or> matchingIndices parsed = []")
        case True
        then show ?thesis by (simp add: g)
      next
        case False
        then have "5 < length (splitWsU (postProcessThemeLabel (issueLabel parsed))) \<or>
            canonicalLabel parsed \<in> widen ` excludeThemes \<or>
            20 * fst (countForCluster items (canonicalLabel parsed)) < length items"
          using r by blast
        then have "5 < length (splitWsU (postProcessThemeLabel (issueLabel parsed))) \<or>
            canonicalLabel parsed \<in> widen ` excludeThemes \<or>
            of_nat (fst (countForCluster items (canonicalLabel parsed)))
              < jsMul KPI_MIN_SHARE (of_nat (length items))"
          using below_share[OF _ assms(2)] by blast
        then have "acceptOracle items excludeThemes preferTheme (issueLabel parsed) =
            fallbackResult items excludeThemes preferTheme"
          unfolding canonicalLabel_def by (rule acceptOracle_rejects)
        then show ?thesis using False by (simp add: g)
      qed
    qed
  qed
  then show ?thesis by (simp only: fallbackResult_def)
qed

theorem generateThemeWithCount_falls_back_witness:
  "oracleRejected (Some sampleOracle) sampleParse [loginRow] {} \<and>
   oracleAnswer (Some sampleOracle) sampleParse [loginRow] = Some loginBugsAnswer \<and>
   matchingIndices loginBugsAnswer = [] \<and>
   length [loginRow] < 2 ^ 32 \<and>
   generateThemeWithCount (Some sampleOracle) sampleParse [loginRow] {} None =
     map_option widenKpi (fallbackThemeAndCount [loginRow] {} None) \<and>
   oracleRejected (Some sampleOracle) diaeresisParse [loginRow] {} \<and>
   canonicalLabel diaeresisAnswer = [U0178, Latin (CHR ''o'')] \<and>
   countForCluster [loginRow] [U0178, Latin (CHR ''o'')] = (0, 0) \<and>
   generateThemeWithCount (Some sampleOracle) diaeresisParse [loginRow] {} None =
     map_option widenKpi (fallbackThemeAndCount [loginRow] {} None) \<and>
   fallbackThemeAndCount [loginRow] {} None = Some (kpiOf ''Authentication / Login Issues'' [loginRow])"
proof -
  have a: "oracleAnswer (Some sampleOracle) sampleParse [loginRow] = Some loginBugsAnswer"
    by (simp add: oracleAnswer_def sampleOracle_def parseAiJson_def sampleParse_def)
  have i: "matchingIndices loginBugsAnswer = []"
    by (simp add: matchingIndices_def loginBugsAnswer_def field_def)
  have r: "oracleRejected (Some sampleOracle) sampleParse [loginRow] {}"
    by (simp add: oracleRejected_def a i)
  have l: "length [loginRow] < 2 ^ 32" by simp
  have f: "fallbackThemeAndCount [loginRow] {} None = Some (kpiOf ''Authentication / Login Issues'' [loginRow])"
    by (simp add: fallback_single[OF loginRow_theme])
  from generateThemeWithCount_falls_back [OF r l, of None]
    generateThemeWithCount_falls_back [OF diaeresis_rejected l, of None]
    a i r l f diaeresis_rejected diaeresis_canonical diaeresis_count
  show ?thesis by blast
qed

section \<open>The summary route\<close>

lemma summaryRoute_keeps_state: "snd (summaryRoute JSON_parse env st) = st"
  by (simp add: summaryRoute_def split: option.splits db_result.splits ai_result.splits sum.splits exn.splits)

lemma parseAiJson_A: "parseAiJson parseAB ''A'' = Some summaryA"
proof -
  have "trim ''A'' = ''A''" by code_simp
  moreover have "\<not> startsWith ''A'' ''```''" by code_simp
  ultimately show ?thesis by (simp add: parseAiJson_def parseAB_def)
qed

lemma parseAiJson_B: "parseAiJson parseAB ''B'' = Some summaryB"
proof -
  have "trim ''B'' = ''B''" by code_simp
  moreover have "\<not> startsWith ''B'' ''```''" by code_simp
  ultimately show ?thesis by (simp add: parseAiJson_def parseAB_def)
qed

lemma normalizeSummary_A: "normalizeSummary summaryA items = Inr summaryA"
  by (simp add: normalizeSummary_def summaryA_def field_def pick_def nonEmptyString_def nonEmptyArray_def)

lemma normalizeSummary_B: "normalizeSummary summaryB items = Inr summaryB"
  by (simp add: normalizeSummary_def summaryB_def field_def pick_def nonEmptyString_def nonEmptyArray_def)

text \<open>
  C9. The claim: the summary of \<open>/api/summary\<close> is memoized for 30 seconds, so that a
  request on the same UTC date within 30 seconds of a computed summary gets the cached
  value and nothing is computed again. The code: the handler reads no clock and neither
  reads nor writes \<open>cachedSummary\<close> and \<open>cachedAt\<close>; every request asks the oracle. Two
  requests in a row, the oracle answering \<open>A\<close> and then \<open>B\<close>: the second response is the
  summary of \<open>B\<close>, and the cache is empty before and after both.
\<close>

theorem summaryRoute_recomputes:
  "summaryRoute parseAB envA initialState = (Response 200 summaryA, initialState) \<and>
   summaryRoute parseAB envB initialState = (Response 200 summaryB, initialState) \<and>
   summaryA \<noteq> summaryB \<and>
   cachedSummary initialState = None"
proof -
  have a: "summaryRoute parseAB envA initialState = (Response 200 summaryA, initialState)"
    by (simp add: summaryRoute_def envA_def parseAiJson_A normalizeSummary_A)
  have b: "summaryRoute parseAB envB initialState = (Response 200 summaryB, initialState)"
    by (simp add: summaryRoute_def envB_def parseAiJson_B normalizeSummary_B)
  have c: "summaryA \<noteq> summaryB" by (simp add: summaryA_def summaryB_def)
  have d: "cachedSummary initialState = None" by (simp add: initialState_def)
  show ?thesis using a b c d by blast
qed

end
